theory Spec2Isabelle
  imports
    Complex_Main
    "HOL-Library.Word"
    "HOL-Library.Signed_Division"
    "HOL-Library.Multiset"
    "HOL-Library.Char_ord"
    "HOL-Library.List_Lexorder"
begin

chapter \<open>iDRAC inventory importer: embedding of the scan, aggregation and sync core\<close>

text \<open>
  The theory embeds the parts of the importer that its specification makes claims about:
  the configuration accessors (\<^verbatim>\<open>internal/config\<close>), IP-range expansion, the data model
  and the aggregation engine (\<^verbatim>\<open>internal/models\<close>, in the two-level version that has
  \<^verbatim>\<open>ModelGroup\<close> and \<^verbatim>\<open>RAMModuleSizeGiB\<close>), the custom-field payload of the NetBox client
  (the version with power and GPU fields), and the scanner (\<^verbatim>\<open>internal/scanner/scanner.go\<close>).

  Conventions. A Go \<^verbatim>\<open>int\<close> that carries data read from a BMC is a \<open>64 word\<close> (the build
  targets 64-bit platforms); \<open>+\<close> wraps and division truncates towards zero. Counters that
  count elements of a slice are \<open>nat\<close>: a slice has fewer than \<open>2 ^ 63\<close> elements, so these
  never wrap. A Go \<^verbatim>\<open>string\<close> is a \<open>string\<close> of bytes, compared bytewise. A \<^verbatim>\<open>float64\<close> is a
  value of a type parameter \<open>'f\<close>; the conversions the code applies to it are parameters of
  the functions that use them, so that every theorem holds for IEEE arithmetic as well as
  for the exact arithmetic the concrete examples use. Wall-clock time stamps are values
  of type \<open>int\<close> handed in by the caller. Log output is not modelled.
\<close>

section \<open>Formatting helpers of the Go standard library\<close>

type_synonym int64 = "64 word"

text \<open>\<^verbatim>\<open>%d\<close> of \<^verbatim>\<open>fmt.Sprintf\<close>: decimal digits, most significant first, \<^verbatim>\<open>-\<close> for negatives.\<close>

definition digit_char :: "nat \<Rightarrow> char" where
  "digit_char d = ''0123456789'' ! d"

fun show_nat :: "nat \<Rightarrow> string" where
  "show_nat n = (if n < 10 then [digit_char n] else show_nat (n div 10) @ [digit_char (n mod 10)])"

declare show_nat.simps [simp del]

definition show_int :: "int \<Rightarrow> string" where
  "show_int i = (if i < 0 then CHR ''-'' # show_nat (nat (- i)) else show_nat (nat i))"

definition show_int64 :: "int64 \<Rightarrow> string" where
  "show_int64 w = show_int (sint w)"

text \<open>\<^verbatim>\<open>strings.Join\<close>.\<close>

fun Join :: "string list \<Rightarrow> string \<Rightarrow> string" where
  "Join [] sep = []"
| "Join [p] sep = p"
| "Join (p # q # ps) sep = p @ sep @ Join (q # ps) sep"

text \<open>The multiplication sign U+00D7 of the summaries, in UTF-8.\<close>

definition times_sign :: string where
  "times_sign = [char_of (195::nat), char_of (151::nat)]"

text \<open>Go's \<^verbatim>\<open>/\<close> on \<^verbatim>\<open>int\<close>: the quotient truncated towards zero (the divisor is not zero
  wherever the code divides).\<close>

definition go_div :: "int64 \<Rightarrow> int64 \<Rightarrow> int64" where
  "go_div a b = word_of_int (sint a sdiv sint b)"

text \<open>
  \<^verbatim>\<open>sort.Slice(xs, less)\<close>. The standard library's algorithm is not part of the repository
  and is not stable; it is modelled by insertion sort, which keeps elements that the comparison
  does not separate in their original order. The theorems below use of it only that the
  result is a permutation of the input in which no later element is less than an
  earlier one.
\<close>

fun sort_insert :: "('a \<Rightarrow> 'a \<Rightarrow> bool) \<Rightarrow> 'a \<Rightarrow> 'a list \<Rightarrow> 'a list" where
  "sort_insert lt x [] = [x]"
| "sort_insert lt x (y # ys) = (if lt y x then y # sort_insert lt x ys else x # y # ys)"

fun sort_Slice :: "('a \<Rightarrow> 'a \<Rightarrow> bool) \<Rightarrow> 'a list \<Rightarrow> 'a list" where
  "sort_Slice lt [] = []"
| "sort_Slice lt (x # xs) = sort_insert lt x (sort_Slice lt xs)"

section \<open>Errors\<close>

text \<open>The values of Go's \<^verbatim>\<open>error\<close> interface that the modelled code produces or passes on.\<close>

datatype go_error =
    ContextCanceled
  | DeadlineExceeded
  | ErrAuthenticationFailed
  | ErrNotFound
  | RedfishError string string int string
  | CollectionError string string go_error
  | OtherError string

text \<open>A run-time panic of the Go program.\<close>

datatype panic = IndexOutOfRange | NilDereference

section \<open>Configuration (internal/config)\<close>

type_synonym duration = int64

definition Second :: duration where
  "Second = 1000000000"

record ServerConfig =
  sc_Host :: string
  sc_Username :: string
  sc_Password :: string
  sc_Name :: string
  sc_InsecureSkipVerify :: "bool option"
  sc_TimeoutSeconds :: "int64 option"

record DefaultsConfig =
  dc_Username :: string
  dc_Password :: string
  dc_TimeoutSeconds :: int64
  dc_InsecureSkipVerify :: "bool option"

definition secondsToDuration :: "int64 \<Rightarrow> duration \<Rightarrow> duration" where
  "secondsToDuration seconds defaultDuration =
     (if sint seconds \<le> 0 then defaultDuration else seconds * Second)"

definition secondsPtrToDuration :: "int64 option \<Rightarrow> duration \<Rightarrow> duration" where
  "secondsPtrToDuration seconds defaultDuration =
     (case seconds of
        None \<Rightarrow> defaultDuration
      | Some s \<Rightarrow> if sint s \<le> 0 then defaultDuration else s * Second)"

definition GetTimeout :: "ServerConfig \<Rightarrow> duration \<Rightarrow> duration" where
  "GetTimeout s defaultTimeout = secondsPtrToDuration (sc_TimeoutSeconds s) defaultTimeout"

text \<open>\<^verbatim>\<open>defaults.GetTimeout()\<close>; \<open>DefaultTimeoutSeconds\<close> is read from the environment when the
  process starts (60 when unset) and is a parameter here.\<close>

definition defaults_GetTimeout :: "int64 \<Rightarrow> duration" where
  "defaults_GetTimeout DefaultTimeoutSeconds = DefaultTimeoutSeconds * Second"

definition Timeout :: "int64 \<Rightarrow> DefaultsConfig \<Rightarrow> duration" where
  "Timeout DefaultTimeoutSeconds d =
     secondsToDuration (dc_TimeoutSeconds d) (defaults_GetTimeout DefaultTimeoutSeconds)"

text \<open>The duration \<^verbatim>\<open>scanServer\<close> hands to \<^verbatim>\<open>context.WithTimeout\<close>:
  \<^verbatim>\<open>timeout := server.GetTimeout(s.cfg.Defaults.Timeout())\<close>.\<close>

definition scanServer_timeout :: "int64 \<Rightarrow> DefaultsConfig \<Rightarrow> ServerConfig \<Rightarrow> duration" where
  "scanServer_timeout DefaultTimeoutSeconds dflt server =
     GetTimeout server (Timeout DefaultTimeoutSeconds dflt)"

text \<open>Example configuration: defaults of 60 seconds, one host that asks for 120.\<close>

definition defaults_60 :: DefaultsConfig where
  "defaults_60 = \<lparr>dc_Username = ''root'', dc_Password = ''calvin'', dc_TimeoutSeconds = 60,
     dc_InsecureSkipVerify = None\<rparr>"

definition server_120 :: ServerConfig where
  "server_120 = \<lparr>sc_Host = ''10.0.0.1'', sc_Username = [], sc_Password = [], sc_Name = [],
     sc_InsecureSkipVerify = None, sc_TimeoutSeconds = Some 120\<rparr>"

section \<open>Data model (internal/models/models.go)\<close>

text \<open>
  The four conversions the code applies to a \<^verbatim>\<open>float64\<close>:
  \<open>f_round x\<close> is \<^verbatim>\<open>int(x + 0.5)\<close>, \<open>f_trunc x\<close> is \<^verbatim>\<open>int(x)\<close>, \<open>f_of_mib n\<close> is
  \<^verbatim>\<open>float64(n) / 1024\<close> and \<open>f_fmt2 x\<close> is \<^verbatim>\<open>fmt.Sprintf("%.2f", x)\<close>.
\<close>

record 'f float64_ops =
  f_round :: "'f \<Rightarrow> int64"
  f_trunc :: "'f \<Rightarrow> int64"
  f_of_mib :: "int64 \<Rightarrow> 'f"
  f_fmt2 :: "'f \<Rightarrow> string"

record CPUInfo =
  cpu_Socket :: string
  cpu_Model :: string
  cpu_Manufacturer :: string
  cpu_Brand :: string
  cpu_Cores :: int64
  cpu_Threads :: int64
  cpu_MaxSpeedMHz :: int64
  cpu_OperatingSpeedMHz :: int64
  cpu_ProcessorType :: string
  cpu_Architecture :: string
  cpu_InstructionSet :: string
  cpu_Health :: string

record MemoryInfo =
  mem_Slot :: string
  mem_CapacityMiB :: int64
  mem_Type :: string
  mem_Technology :: string
  mem_BaseModuleType :: string
  mem_SpeedMHz :: int64
  mem_Manufacturer :: string
  mem_PartNumber :: string
  mem_SerialNumber :: string
  mem_RankCount :: int64
  mem_DataWidthBits :: int64
  mem_State :: string
  mem_Health :: string

definition MemoryStateEnabled :: string where
  "MemoryStateEnabled = ''Enabled''"

definition IsPopulated :: "MemoryInfo \<Rightarrow> bool" where
  "IsPopulated m = (mem_State m = MemoryStateEnabled)"

record 'f DriveInfo =
  drv_Name :: string
  drv_Model :: string
  drv_Manufacturer :: string
  drv_SerialNumber :: string
  drv_CapacityGB :: 'f
  drv_MediaType :: string
  drv_Protocol :: string
  drv_LifeLeftPct :: 'f
  drv_Health :: string

record GPUInfo =
  gpu_Slot :: string
  gpu_Model :: string
  gpu_Manufacturer :: string
  gpu_MemoryMiB :: int64
  gpu_MemoryType :: string
  gpu_Health :: string

definition MemoryGB :: "'f float64_ops \<Rightarrow> GPUInfo \<Rightarrow> 'f" where
  "MemoryGB ops g = f_of_mib ops (gpu_MemoryMiB g)"

record 'f ServerInfo =
  si_Host :: string
  si_Name :: string
  si_CollectedAt :: int
  si_Error :: "go_error option"
  si_ErrorMessage :: string
  si_Model :: string
  si_Manufacturer :: string
  si_SerialNumber :: string
  si_ServiceTag :: string
  si_BiosVersion :: string
  si_HostName :: string
  si_PowerState :: string
  si_CPUs :: "CPUInfo list"
  si_CPUCount :: int64
  si_CPUModel :: string
  si_Memory :: "MemoryInfo list"
  si_TotalMemoryGiB :: 'f
  si_MemorySlotsTotal :: int64
  si_MemorySlotsUsed :: int64
  si_MemorySlotsFree :: int64
  si_Drives :: "'f DriveInfo list"
  si_DriveCount :: int64
  si_TotalStorageTB :: 'f
  si_GPUs :: "GPUInfo list"
  si_GPUCount :: int64
  si_PowerConsumedWatts :: int64
  si_PowerPeakWatts :: int64

record CollectionStats =
  cs_TotalServers :: nat
  cs_SuccessfulCount :: nat
  cs_FailedCount :: nat
  cs_TotalDuration :: duration
  cs_AverageDuration :: duration
  cs_FastestDuration :: duration
  cs_SlowestDuration :: duration

section \<open>Aggregation (internal/models aggregate, two-level version)\<close>

subsection \<open>NormalizeStorageSummary\<close>

record driveKey =
  capacityGB :: int64
  mediaType :: string

definition drive_key :: "'f float64_ops \<Rightarrow> 'f DriveInfo \<Rightarrow> driveKey" where
  "drive_key ops d = \<lparr>capacityGB = f_round ops (drv_CapacityGB d), mediaType = drv_MediaType d\<rparr>"

text \<open>Reading a Go \<^verbatim>\<open>map[K]int\<close>: the zero value for a missing key.\<close>

definition map_count :: "('k \<rightharpoonup> nat) \<Rightarrow> 'k \<Rightarrow> nat" where
  "map_count counts k = (case counts k of None \<Rightarrow> 0 | Some c \<Rightarrow> c)"

text \<open>The first loop: \<^verbatim>\<open>counts\<close> and \<^verbatim>\<open>keys\<close> (keys in order of first occurrence).\<close>

fun count_drives ::
  "'f float64_ops \<Rightarrow> 'f DriveInfo list \<Rightarrow> (driveKey \<rightharpoonup> nat) \<times> driveKey list
     \<Rightarrow> (driveKey \<rightharpoonup> nat) \<times> driveKey list" where
  "count_drives ops [] st = st"
| "count_drives ops (d # ds) (counts, keys) =
     (let k = drive_key ops d;
          keys' = (if counts k = None then keys @ [k] else keys);
          counts' = counts(k \<mapsto> map_count counts k + 1)
      in count_drives ops ds (counts', keys'))"

text \<open>The comparison handed to \<^verbatim>\<open>sort.Slice\<close>.\<close>

definition driveKey_less :: "driveKey \<Rightarrow> driveKey \<Rightarrow> bool" where
  "driveKey_less ki kj =
     (if mediaType ki \<noteq> mediaType kj then
        (if mediaType ki = ''SSD'' then True
         else if mediaType kj = ''SSD'' then False
         else mediaType ki < mediaType kj)
      else sint (capacityGB ki) > sint (capacityGB kj))"

text \<open>\<^verbatim>\<open>fmt.Sprintf("%d\<times>%dGB %s", counts[k], k.capacityGB, k.mediaType)\<close>.\<close>

definition drive_part :: "(driveKey \<rightharpoonup> nat) \<Rightarrow> driveKey \<Rightarrow> string" where
  "drive_part counts k =
     show_nat (map_count counts k) @ times_sign @ show_int64 (capacityGB k) @ ''GB '' @ mediaType k"

definition NormalizeStorageSummary :: "'f float64_ops \<Rightarrow> 'f DriveInfo list \<Rightarrow> string" where
  "NormalizeStorageSummary ops drives =
     (if drives = [] then ''no drives''
      else
        (let (counts, keys) = count_drives ops drives (Map.empty, []);
             sorted_keys = sort_Slice driveKey_less keys
         in Join (map (drive_part counts) sorted_keys) '', ''))"

subsection \<open>Fingerprint\<close>

record HardwareFingerprint =
  fp_Manufacturer :: string
  fp_Model :: string
  fp_CPUCount :: int64
  fp_CPUModel :: string
  fp_CPUCoresPerSocket :: int64
  fp_CPUSpeedMHz :: int64
  fp_RAMTotalGiB :: int64
  fp_RAMModuleSizeGiB :: int64
  fp_RAMType :: string
  fp_RAMSpeedMHz :: int64
  fp_RAMSlotsTotal :: int64
  fp_StorageSummary :: string
  fp_GPUCount :: int64
  fp_GPUModel :: string
  fp_GPUMemoryGiB :: int64

text \<open>\<^verbatim>\<open>Key\<close>: \<^verbatim>\<open>Sprintf("%d|%s|%d|%d|%d|%d|%s|%d|%d|%s|%d|%s|%d", ...)\<close>, manufacturer and
  model left out.\<close>

definition Key :: "HardwareFingerprint \<Rightarrow> string" where
  "Key f =
     show_int64 (fp_CPUCount f) @ ''|'' @ fp_CPUModel f @ ''|'' @
     show_int64 (fp_CPUCoresPerSocket f) @ ''|'' @ show_int64 (fp_CPUSpeedMHz f) @ ''|'' @
     show_int64 (fp_RAMTotalGiB f) @ ''|'' @ show_int64 (fp_RAMModuleSizeGiB f) @ ''|'' @
     fp_RAMType f @ ''|'' @ show_int64 (fp_RAMSpeedMHz f) @ ''|'' @
     show_int64 (fp_RAMSlotsTotal f) @ ''|'' @ fp_StorageSummary f @ ''|'' @
     show_int64 (fp_GPUCount f) @ ''|'' @ fp_GPUModel f @ ''|'' @ show_int64 (fp_GPUMemoryGiB f)"

text \<open>The loop over \<^verbatim>\<open>s.CPUs\<close>: the first socket with \<^verbatim>\<open>Cores > 0\<close> sets the per-socket
  fields, then \<^verbatim>\<open>break\<close>.\<close>

fun fingerprint_cpus :: "CPUInfo list \<Rightarrow> HardwareFingerprint \<Rightarrow> HardwareFingerprint" where
  "fingerprint_cpus [] fp = fp"
| "fingerprint_cpus (cpu # cpus) fp =
     (if 0 < sint (cpu_Cores cpu) then
        (let fp1 = fp\<lparr>fp_CPUCoresPerSocket := cpu_Cores cpu, fp_CPUSpeedMHz := cpu_MaxSpeedMHz cpu\<rparr>
         in if fp_CPUModel fp1 = [] then fp1\<lparr>fp_CPUModel := cpu_Model cpu\<rparr> else fp1)
      else fingerprint_cpus cpus fp)"

text \<open>The loop over \<^verbatim>\<open>s.Memory\<close>: the first populated DIMM sets type, speed and module
  size, then \<^verbatim>\<open>break\<close>.\<close>

fun fingerprint_memory :: "MemoryInfo list \<Rightarrow> HardwareFingerprint \<Rightarrow> HardwareFingerprint" where
  "fingerprint_memory [] fp = fp"
| "fingerprint_memory (mem # mems) fp =
     (if IsPopulated mem then
        fp\<lparr>fp_RAMType := mem_Type mem, fp_RAMSpeedMHz := mem_SpeedMHz mem,
           fp_RAMModuleSizeGiB := go_div (mem_CapacityMiB mem + 512) 1024\<rparr>
      else fingerprint_memory mems fp)"

definition fingerprint_gpus ::
  "'f float64_ops \<Rightarrow> GPUInfo list \<Rightarrow> HardwareFingerprint \<Rightarrow> HardwareFingerprint" where
  "fingerprint_gpus ops gpus fp =
     (case gpus of
        [] \<Rightarrow> fp
      | g # _ \<Rightarrow> fp\<lparr>fp_GPUModel := gpu_Model g, fp_GPUMemoryGiB := f_round ops (MemoryGB ops g)\<rparr>)"

definition buildFingerprint :: "'f float64_ops \<Rightarrow> 'f ServerInfo \<Rightarrow> HardwareFingerprint" where
  "buildFingerprint ops s =
     (let fp = \<lparr>fp_Manufacturer = si_Manufacturer s, fp_Model = si_Model s,
                fp_CPUCount = si_CPUCount s, fp_CPUModel = si_CPUModel s,
                fp_CPUCoresPerSocket = 0, fp_CPUSpeedMHz = 0,
                fp_RAMTotalGiB = f_round ops (si_TotalMemoryGiB s),
                fp_RAMModuleSizeGiB = 0, fp_RAMType = [], fp_RAMSpeedMHz = 0,
                fp_RAMSlotsTotal = si_MemorySlotsTotal s,
                fp_StorageSummary = NormalizeStorageSummary ops (si_Drives s),
                fp_GPUCount = si_GPUCount s, fp_GPUModel = [], fp_GPUMemoryGiB = 0\<rparr>
      in fingerprint_gpus ops (si_GPUs s) (fingerprint_memory (si_Memory s) (fingerprint_cpus (si_CPUs s) fp)))"

subsection \<open>GroupByConfiguration\<close>

record 'f HardwareGroup =
  hg_Fingerprint :: HardwareFingerprint
  hg_Count :: nat
  hg_Servers :: "'f ServerInfo list"
  hg_TotalStorageTB :: 'f

record 'f ModelGroup =
  mg_Manufacturer :: string
  mg_Model :: string
  mg_TotalCount :: nat
  mg_ConfigGroups :: "'f HardwareGroup list"

record 'f AggregatedInventory =
  inv_GeneratedAt :: int
  inv_TotalServers :: nat
  inv_SuccessfulCount :: nat
  inv_FailedCount :: nat
  inv_ModelGroups :: "'f ModelGroup list"
  inv_FailedServers :: "'f ServerInfo list"
  inv_Stats :: CollectionStats

record modelKey =
  manufacturer :: string
  model :: string

text \<open>The local variables of \<^verbatim>\<open>GroupByConfiguration\<close> that its main loop updates. The Go map
  \<^verbatim>\<open>modelMap\<close> holds pointers; here it holds the group itself and every update of a group is
  written back to the map.\<close>

record 'f gbc_state =
  st_inv :: "'f AggregatedInventory"
  st_modelMap :: "modelKey \<rightharpoonup> 'f ModelGroup"
  st_configIdxMap :: "string \<rightharpoonup> nat"
  st_modelOrder :: "modelKey list"

definition model_key :: "'f ServerInfo \<Rightarrow> modelKey" where
  "model_key srv = \<lparr>manufacturer = si_Manufacturer srv, model = si_Model srv\<rparr>"

text \<open>\<^verbatim>\<open>fmt.Sprintf("%s|%s\x00%s", mk.manufacturer, mk.model, fp.Key())\<close>.\<close>

definition comb_key :: "modelKey \<Rightarrow> HardwareFingerprint \<Rightarrow> string" where
  "comb_key mk fp = manufacturer mk @ ''|'' @ model mk @ [char_of (0::nat)] @ Key fp"

text \<open>One iteration of the loop over \<^verbatim>\<open>servers\<close>. Indexing \<^verbatim>\<open>mg.ConfigGroups[idx]\<close> with an
  index that is not below the length of the slice panics.\<close>

definition gbc_step :: "'f float64_ops \<Rightarrow> 'f gbc_state \<Rightarrow> 'f ServerInfo \<Rightarrow> panic + 'f gbc_state" where
  "gbc_step ops st srv =
     (if si_Error srv \<noteq> None then
        Inr (st\<lparr>st_inv := (st_inv st)
               \<lparr>inv_FailedServers := inv_FailedServers (st_inv st) @ [srv],
                inv_FailedCount := inv_FailedCount (st_inv st) + 1\<rparr>\<rparr>)
      else
        (let inv1 = (st_inv st)\<lparr>inv_SuccessfulCount := inv_SuccessfulCount (st_inv st) + 1\<rparr>;
             mk = model_key srv;
             (mg0, order1) =
               (case st_modelMap st mk of
                  None \<Rightarrow> (\<lparr>mg_Manufacturer = si_Manufacturer srv, mg_Model = si_Model srv,
                            mg_TotalCount = 0, mg_ConfigGroups = []\<rparr>, st_modelOrder st @ [mk])
                | Some g \<Rightarrow> (g, st_modelOrder st));
             mg1 = mg0\<lparr>mg_TotalCount := mg_TotalCount mg0 + 1\<rparr>;
             fp = buildFingerprint ops srv;
             combKey = comb_key mk fp
         in case st_configIdxMap st combKey of
              Some idx \<Rightarrow>
                if idx < length (mg_ConfigGroups mg1) then
                  (let g = mg_ConfigGroups mg1 ! idx;
                       g1 = g\<lparr>hg_Servers := hg_Servers g @ [srv], hg_Count := hg_Count g + 1\<rparr>;
                       mg2 = mg1\<lparr>mg_ConfigGroups := (mg_ConfigGroups mg1)[idx := g1]\<rparr>
                   in Inr (st\<lparr>st_inv := inv1, st_modelMap := (st_modelMap st)(mk \<mapsto> mg2),
                             st_modelOrder := order1\<rparr>))
                else Inl IndexOutOfRange
            | None \<Rightarrow>
                (let g = \<lparr>hg_Fingerprint = fp, hg_Count = 1, hg_Servers = [srv],
                          hg_TotalStorageTB = si_TotalStorageTB srv\<rparr>;
                     mg2 = mg1\<lparr>mg_ConfigGroups := mg_ConfigGroups mg1 @ [g]\<rparr>
                 in Inr (st\<lparr>st_inv := inv1, st_modelMap := (st_modelMap st)(mk \<mapsto> mg2),
                           st_configIdxMap := (st_configIdxMap st)(combKey \<mapsto> length (mg_ConfigGroups mg1)),
                           st_modelOrder := order1\<rparr>))))"

fun gbc_loop :: "'f float64_ops \<Rightarrow> 'f gbc_state \<Rightarrow> 'f ServerInfo list \<Rightarrow> panic + 'f gbc_state" where
  "gbc_loop ops st [] = Inr st"
| "gbc_loop ops st (srv # rest) =
     (case gbc_step ops st srv of
        Inl p \<Rightarrow> Inl p
      | Inr st1 \<Rightarrow> gbc_loop ops st1 rest)"

text \<open>The second loop: \<^verbatim>\<open>inv.ModelGroups = append(inv.ModelGroups, *modelMap[mk])\<close>.\<close>

fun collect_groups :: "(modelKey \<rightharpoonup> 'f ModelGroup) \<Rightarrow> modelKey list \<Rightarrow> panic + 'f ModelGroup list" where
  "collect_groups mm [] = Inr []"
| "collect_groups mm (mk # mks) =
     (case mm mk of
        None \<Rightarrow> Inl NilDereference
      | Some g \<Rightarrow> (case collect_groups mm mks of Inl p \<Rightarrow> Inl p | Inr gs \<Rightarrow> Inr (g # gs)))"

definition sort_config_groups :: "'f ModelGroup \<Rightarrow> 'f ModelGroup" where
  "sort_config_groups mg =
     mg\<lparr>mg_ConfigGroups := sort_Slice (\<lambda>a b. hg_Count a > hg_Count b) (mg_ConfigGroups mg)\<rparr>"

definition gbc_init :: "int \<Rightarrow> 'f ServerInfo list \<Rightarrow> CollectionStats \<Rightarrow> 'f gbc_state" where
  "gbc_init now servers stats =
     \<lparr>st_inv = \<lparr>inv_GeneratedAt = now, inv_TotalServers = length servers,
                inv_SuccessfulCount = 0, inv_FailedCount = 0, inv_ModelGroups = [],
                inv_FailedServers = [], inv_Stats = stats\<rparr>,
      st_modelMap = Map.empty, st_configIdxMap = Map.empty, st_modelOrder = []\<rparr>"

text \<open>\<open>now\<close> is the value of \<^verbatim>\<open>time.Now().UTC()\<close>.\<close>

definition GroupByConfiguration ::
  "'f float64_ops \<Rightarrow> int \<Rightarrow> 'f ServerInfo list \<Rightarrow> CollectionStats \<Rightarrow> panic + 'f AggregatedInventory" where
  "GroupByConfiguration ops now servers stats =
     (case gbc_loop ops (gbc_init now servers stats) servers of
        Inl p \<Rightarrow> Inl p
      | Inr st \<Rightarrow>
          (case collect_groups (st_modelMap st) (st_modelOrder st) of
             Inl p \<Rightarrow> Inl p
           | Inr gs \<Rightarrow>
               Inr ((st_inv st)\<lparr>inv_ModelGroups :=
                      map sort_config_groups
                        (sort_Slice (\<lambda>a b. mg_TotalCount a > mg_TotalCount b) gs)\<rparr>)))"


subsection \<open>Example fleet\<close>

text \<open>Exact arithmetic on real numbers stands in for \<^verbatim>\<open>float64\<close> in the examples; on the values
  used there (small whole numbers and halves) the two agree.\<close>

definition trunc0 :: "real \<Rightarrow> int" where
  "trunc0 x = (if 0 \<le> x then \<lfloor>x\<rfloor> else \<lceil>x\<rceil>)"

definition exact_ops :: "real float64_ops" where
  "exact_ops =
     \<lparr>f_round = (\<lambda>x. word_of_int (trunc0 (x + 1 / 2))),
      f_trunc = (\<lambda>x. word_of_int (trunc0 x)),
      f_of_mib = (\<lambda>n. of_int (sint n) / 1024),
      f_fmt2 = (\<lambda>x. show_int (trunc0 x) @ ''.'' @ show_nat (nat (trunc0 (\<bar>x\<bar> * 10)) mod 10)
                       @ show_nat (nat (trunc0 (\<bar>x\<bar> * 100 + 1 / 2)) mod 10))\<rparr>"

definition dimm :: "string \<Rightarrow> int64 \<Rightarrow> string \<Rightarrow> MemoryInfo" where
  "dimm slot cap state =
     \<lparr>mem_Slot = slot, mem_CapacityMiB = cap, mem_Type = ''DDR4'', mem_Technology = ''DRAM'',
      mem_BaseModuleType = ''RDIMM'', mem_SpeedMHz = 3200, mem_Manufacturer = ''Hynix'',
      mem_PartNumber = [], mem_SerialNumber = [], mem_RankCount = 2, mem_DataWidthBits = 64,
      mem_State = state, mem_Health = ''OK''\<rparr>"

definition drive :: "real \<Rightarrow> string \<Rightarrow> real DriveInfo" where
  "drive cap media =
     \<lparr>drv_Name = ''Disk'', drv_Model = [], drv_Manufacturer = [], drv_SerialNumber = [],
      drv_CapacityGB = cap, drv_MediaType = media, drv_Protocol = ''SATA'', drv_LifeLeftPct = 0,
      drv_Health = ''OK''\<rparr>"

definition host_record :: "string \<Rightarrow> string \<Rightarrow> string \<Rightarrow> string \<Rightarrow> real ServerInfo" where
  "host_record host manu mdl cpu =
     \<lparr>si_Host = host, si_Name = [], si_CollectedAt = 0, si_Error = None, si_ErrorMessage = [],
      si_Model = mdl, si_Manufacturer = manu, si_SerialNumber = [], si_ServiceTag = [],
      si_BiosVersion = ''2.1'', si_HostName = [], si_PowerState = ''On'', si_CPUs = [],
      si_CPUCount = 2, si_CPUModel = cpu, si_Memory = [], si_TotalMemoryGiB = 0,
      si_MemorySlotsTotal = 0, si_MemorySlotsUsed = 0, si_MemorySlotsFree = 0, si_Drives = [],
      si_DriveCount = 0, si_TotalStorageTB = 0, si_GPUs = [], si_GPUCount = 0,
      si_PowerConsumedWatts = 0, si_PowerPeakWatts = 0\<rparr>"


definition no_stats :: CollectionStats where
  "no_stats = \<lparr>cs_TotalServers = 0, cs_SuccessfulCount = 0, cs_FailedCount = 0,
     cs_TotalDuration = 0, cs_AverageDuration = 0, cs_FastestDuration = 0, cs_SlowestDuration = 0\<rparr>"

definition two_slot_host :: "real ServerInfo" where
  "two_slot_host = (host_record ''h1'' ''Dell'' ''R750'' ''Xeon'')
     \<lparr>si_Memory := [dimm ''A2'' 0 ''Absent'', dimm ''A1'' 262144 ''Enabled'']\<rparr>"

text \<open>Scenario 5 of the specification, and the same drives in another order.\<close>

definition scenario5_drives :: "real DriveInfo list" where
  "scenario5_drives = [drive 14306 ''HDD'', drive 745 ''SSD'', drive 14306 ''HDD'', drive 745 ''SSD'']"

definition scenario5_permuted :: "real DriveInfo list" where
  "scenario5_permuted = [drive 745 ''SSD'', drive 745 ''SSD'', drive 14306 ''HDD'', drive 14306 ''HDD'']"

subsection \<open>Quantities used to state the aggregation invariants\<close>


text \<open>The combined key under which the main loop files a record.\<close>

definition record_comb_key :: "'f float64_ops \<Rightarrow> 'f ServerInfo \<Rightarrow> string" where
  "record_comb_key ops srv = comb_key (model_key srv) (buildFingerprint ops srv)"


subsection \<open>Invariants of the main loop\<close>




text \<open>Two successful records of different models whose manufacturer and model strings
  concatenate to the same text around the separator.\<close>

definition colliding_fleet :: "real ServerInfo list" where
  "colliding_fleet = [host_record ''h1'' ''ACME|X'' ''1'' ''Xeon'',
                      host_record ''h2'' ''ACME'' ''X|1'' ''Xeon'']"

section \<open>NetBox client (internal/netbox, version with power and GPU fields)\<close>






















section \<open>Scanner (internal/scanner/scanner.go)\<close>

subsection \<open>Scanning one host\<close>

text \<open>The fields of the Redfish system resource that \<^verbatim>\<open>collectSystemInfo\<close> reads;
  \<open>sys_MaxDIMMSlots\<close> is \<^verbatim>\<open>Oem.Dell.DellSystem.MaxDIMMSlots\<close>, \<open>None\<close> when one of the two
  pointers on the way is nil.\<close>

record 'f System =
  sys_Model :: string
  sys_Manufacturer :: string
  sys_SerialNumber :: string
  sys_SKU :: string
  sys_BiosVersion :: string
  sys_HostName :: string
  sys_PowerState :: string
  sys_ProcessorCount :: int64
  sys_ProcessorModel :: string
  sys_TotalSystemMemoryGiB :: 'f
  sys_MaxDIMMSlots :: "int64 option"

text \<open>
  What the BMC answers during one host scan. \<open>Inl\<close> is the error of the first \<^verbatim>\<open>client.get\<close>
  of the step. For the steps after the system fetch the member loops, which only build
  lists and skip members that fail, are summarised by what they build: the CPUs and GPUs,
  the memory modules, the drives with the sum of their \<^verbatim>\<open>CapacityBytes\<close>, and the
  (consumed, maximum) watts of the \<^verbatim>\<open>PowerControl\<close> entries.
\<close>

record 'f bmc =
  bmc_system :: "go_error + 'f System"
  bmc_processors :: "go_error + CPUInfo list \<times> GPUInfo list"
  bmc_memory :: "go_error + MemoryInfo list"
  bmc_storage :: "go_error + 'f DriveInfo list \<times> int64"
  bmc_power :: "go_error + (int64 \<times> int64) list"

text \<open>Further \<^verbatim>\<open>float64\<close> operations of the scanner: the zero value, \<^verbatim>\<open>x == 0\<close>, \<^verbatim>\<open>x < y\<close> and
  \<^verbatim>\<open>float64(bytes) / 1024 / 1024 / 1024 / 1024\<close>.\<close>

record 'f scan_float_ops =
  sf_zero :: 'f
  sf_is_zero :: "'f \<Rightarrow> bool"
  sf_less :: "'f \<Rightarrow> 'f \<Rightarrow> bool"
  sf_bytes_to_tb :: "int64 \<Rightarrow> 'f"

text \<open>Go's \<^verbatim>\<open>len\<close> as an \<^verbatim>\<open>int\<close>.\<close>

definition len :: "'a list \<Rightarrow> int64" where
  "len xs = of_nat (length xs)"

definition new_ServerInfo :: "'f scan_float_ops \<Rightarrow> int \<Rightarrow> ServerConfig \<Rightarrow> 'f ServerInfo" where
  "new_ServerInfo sops now server =
     \<lparr>si_Host = sc_Host server, si_Name = sc_Name server, si_CollectedAt = now, si_Error = None,
      si_ErrorMessage = [], si_Model = [], si_Manufacturer = [], si_SerialNumber = [],
      si_ServiceTag = [], si_BiosVersion = [], si_HostName = [], si_PowerState = [], si_CPUs = [],
      si_CPUCount = 0, si_CPUModel = [], si_Memory = [], si_TotalMemoryGiB = sf_zero sops,
      si_MemorySlotsTotal = 0, si_MemorySlotsUsed = 0, si_MemorySlotsFree = 0, si_Drives = [],
      si_DriveCount = 0, si_TotalStorageTB = sf_zero sops, si_GPUs = [], si_GPUCount = 0,
      si_PowerConsumedWatts = 0, si_PowerPeakWatts = 0\<rparr>"

text \<open>Each collector returns the updated record and its error (\<open>None\<close> for \<^verbatim>\<open>nil\<close>).\<close>

definition collectSystemInfo :: "'f bmc \<Rightarrow> 'f ServerInfo \<Rightarrow> 'f ServerInfo \<times> go_error option" where
  "collectSystemInfo b info =
     (case bmc_system b of
        Inl err \<Rightarrow> (info, Some (CollectionError (si_Host info) ''system'' err))
      | Inr system \<Rightarrow>
          (let info1 = info
                 \<lparr>si_Model := sys_Model system, si_Manufacturer := sys_Manufacturer system,
                  si_SerialNumber := sys_SerialNumber system, si_ServiceTag := sys_SKU system,
                  si_BiosVersion := sys_BiosVersion system, si_HostName := sys_HostName system,
                  si_PowerState := sys_PowerState system,
                  si_CPUCount := sys_ProcessorCount system, si_CPUModel := sys_ProcessorModel system,
                  si_TotalMemoryGiB := sys_TotalSystemMemoryGiB system\<rparr>
           in (case sys_MaxDIMMSlots system of
                 None \<Rightarrow> (info1, None)
               | Some slots \<Rightarrow>
                   (if 0 < sint slots then (info1\<lparr>si_MemorySlotsTotal := slots\<rparr>, None)
                    else (info1, None)))))"

definition collectProcessors :: "'f bmc \<Rightarrow> 'f ServerInfo \<Rightarrow> 'f ServerInfo \<times> go_error option" where
  "collectProcessors b info =
     (case bmc_processors b of
        Inl err \<Rightarrow> (info, Some (CollectionError (si_Host info) ''processors'' err))
      | Inr (cpus, gpus) \<Rightarrow>
          (let info1 = info\<lparr>si_CPUs := cpus, si_GPUs := gpus, si_GPUCount := len gpus\<rparr>
           in (case cpus of
                 [] \<Rightarrow> (info1, None)
               | cpu # _ \<Rightarrow>
                   (let info2 = info1\<lparr>si_CPUCount := len cpus\<rparr>
                    in if si_CPUModel info2 = [] \<and> cpu_Model cpu \<noteq> []
                       then (info2\<lparr>si_CPUModel := cpu_Model cpu\<rparr>, None)
                       else (info2, None)))))"

definition collectMemory ::
  "'f float64_ops \<Rightarrow> 'f scan_float_ops \<Rightarrow> 'f bmc \<Rightarrow> 'f ServerInfo \<Rightarrow> 'f ServerInfo \<times> go_error option" where
  "collectMemory ops sops b info =
     (case bmc_memory b of
        Inl err \<Rightarrow> (info, Some (CollectionError (si_Host info) ''memory'' err))
      | Inr memoryModules \<Rightarrow>
          (let slotsUsed = len (filter IsPopulated memoryModules);
               totalMemoryMiB = foldl (\<lambda>t m. t + mem_CapacityMiB m) 0 (filter IsPopulated memoryModules);
               info1 = info\<lparr>si_Memory := memoryModules, si_MemorySlotsUsed := slotsUsed\<rparr>;
               info2 = (if si_MemorySlotsTotal info1 = 0
                        then info1\<lparr>si_MemorySlotsTotal := len memoryModules\<rparr> else info1);
               info3 = info2\<lparr>si_MemorySlotsFree := si_MemorySlotsTotal info2 - slotsUsed\<rparr>
           in if 0 < sint totalMemoryMiB then
                (let calculatedGiB = f_of_mib ops totalMemoryMiB
                 in if sf_is_zero sops (si_TotalMemoryGiB info3)
                         \<or> sf_less sops (si_TotalMemoryGiB info3) calculatedGiB
                    then (info3\<lparr>si_TotalMemoryGiB := calculatedGiB\<rparr>, None)
                    else (info3, None))
              else (info3, None)))"

definition collectStorage :: "'f scan_float_ops \<Rightarrow> 'f bmc \<Rightarrow> 'f ServerInfo \<Rightarrow> 'f ServerInfo \<times> go_error option" where
  "collectStorage sops b info =
     (case bmc_storage b of
        Inl err \<Rightarrow> (info, Some (CollectionError (si_Host info) ''storage'' err))
      | Inr (allDrives, totalCapacityBytes) \<Rightarrow>
          (let info1 = info\<lparr>si_Drives := allDrives, si_DriveCount := len allDrives\<rparr>
           in if 0 < sint totalCapacityBytes
              then (info1\<lparr>si_TotalStorageTB := sf_bytes_to_tb sops totalCapacityBytes\<rparr>, None)
              else (info1, None)))"

definition collectPowerInfo :: "'f bmc \<Rightarrow> 'f ServerInfo \<Rightarrow> 'f ServerInfo \<times> go_error option" where
  "collectPowerInfo b info =
     (case bmc_power b of
        Inl err \<Rightarrow> (info, Some (CollectionError (si_Host info) ''power'' err))
      | Inr powerControl \<Rightarrow>
          (case powerControl of
             [] \<Rightarrow> (info, None)
           | (consumed, maxConsumed) # _ \<Rightarrow>
               (let info1 = (if 0 < sint consumed then info\<lparr>si_PowerConsumedWatts := consumed\<rparr> else info);
                    info2 = (if 0 < sint maxConsumed then info1\<lparr>si_PowerPeakWatts := maxConsumed\<rparr> else info1)
                in (info2, None))))"

text \<open>\<^verbatim>\<open>scanServer\<close>: only a failure of the system fetch sets \<^verbatim>\<open>info.Error\<close>; the errors of the
  later collectors are logged and dropped.\<close>

definition scanServer ::
  "'f float64_ops \<Rightarrow> 'f scan_float_ops \<Rightarrow> int \<Rightarrow> 'f bmc \<Rightarrow> ServerConfig \<Rightarrow> 'f ServerInfo" where
  "scanServer ops sops now b server =
     (let info = new_ServerInfo sops now server
      in case collectSystemInfo b info of
           (info1, Some err) \<Rightarrow> info1\<lparr>si_Error := Some err\<rparr>
         | (info1, None) \<Rightarrow>
             (let info2 = fst (collectProcessors b info1);
                  info3 = fst (collectMemory ops sops b info2);
                  info4 = fst (collectStorage sops b info3);
                  info5 = fst (collectPowerInfo b info4)
              in info5))"

text \<open>Example: a BMC whose system resource decodes from the JSON object \<^verbatim>\<open>{}\<close>, every field
  at its zero value, and which fails every other request.\<close>

definition exact_scan_ops :: "real scan_float_ops" where
  "exact_scan_ops =
     \<lparr>sf_zero = 0, sf_is_zero = (\<lambda>x. x = 0), sf_less = (\<lambda>x y. x < y),
      sf_bytes_to_tb = (\<lambda>n. of_int (sint n) / 1024 / 1024 / 1024 / 1024)\<rparr>"

definition empty_system :: "real System" where
  "empty_system =
     \<lparr>sys_Model = [], sys_Manufacturer = [], sys_SerialNumber = [], sys_SKU = [],
      sys_BiosVersion = [], sys_HostName = [], sys_PowerState = [], sys_ProcessorCount = 0,
      sys_ProcessorModel = [], sys_TotalSystemMemoryGiB = 0, sys_MaxDIMMSlots = None\<rparr>"

definition silent_bmc :: "real bmc" where
  "silent_bmc =
     \<lparr>bmc_system = Inr empty_system, bmc_processors = Inl ErrNotFound, bmc_memory = Inl ErrNotFound,
      bmc_storage = Inl ErrNotFound, bmc_power = Inl ErrNotFound\<rparr>"

definition r750_bmc :: "real bmc" where
  "r750_bmc = silent_bmc\<lparr>bmc_system := Inr (empty_system\<lparr>sys_Model := ''PowerEdge R750''\<rparr>)\<rparr>"

definition dead_bmc :: "real bmc" where
  "dead_bmc = silent_bmc\<lparr>bmc_system := Inl ErrAuthenticationFailed\<rparr>"

section \<open>IP-range expansion (internal/config)\<close>

text \<open>A \<^verbatim>\<open>net.IP\<close> is a slice of bytes: 4 for the short IPv4 form, 16 otherwise.\<close>

type_synonym byte = "8 word"
type_synonym IP = "byte list"

text \<open>\<^verbatim>\<open>IP.To4\<close> of the standard library: a 4-byte address as it is, a 16-byte address with the
  IPv4-in-IPv6 prefix cut to its last four bytes, otherwise nil.\<close>

definition To4 :: "IP \<Rightarrow> IP option" where
  "To4 ip =
     (if length ip = 4 then Some ip
      else if length ip = 16 \<and> take 10 ip = replicate 10 0 \<and> ip ! 10 = 255 \<and> ip ! 11 = 255
      then Some (drop 12 ip)
      else None)"

text \<open>\<^verbatim>\<open>IP.String\<close> on a 4-byte address: dotted decimal.\<close>

definition IP_String :: "IP \<Rightarrow> string" where
  "IP_String ip = Join (map (\<lambda>b. show_nat (unat b)) ip) ''.''"

text \<open>\<^verbatim>\<open>compareIPs\<close>: bytes 0 to 3 compared in turn (\<^verbatim>\<open>To4\<close> is the identity on the 4-byte
  addresses it is called with).\<close>

fun compare_at :: "nat list \<Rightarrow> IP \<Rightarrow> IP \<Rightarrow> int" where
  "compare_at [] a b = 0"
| "compare_at (i # rest) a b =
     (if a ! i < b ! i then - 1
      else if a ! i > b ! i then 1
      else compare_at rest a b)"

definition compareIPs :: "IP \<Rightarrow> IP \<Rightarrow> int" where
  "compareIPs a b = compare_at [0, 1, 2, 3] a b"

text \<open>\<^verbatim>\<open>incrementIP\<close>: from the last byte backwards, add one and stop at the first byte that
  did not wrap to zero. The helper works on the reversed slice.\<close>

fun increment_rev :: "byte list \<Rightarrow> byte list" where
  "increment_rev [] = []"
| "increment_rev (b # bs) = (if b + 1 \<noteq> 0 then (b + 1) # bs else (b + 1) # increment_rev bs)"

definition incrementIP :: "IP \<Rightarrow> IP" where
  "incrementIP ip = rev (increment_rev (rev ip))"

datatype range_error =
    InvalidIPAddress string
  | InvalidRangeFormat string
  | InvalidStartIP string
  | InvalidEndIP string
  | OnlyIPv4Supported string
  | StartAfterEnd string string
  | RangeTooLarge string

text \<open>The loop of \<^verbatim>\<open>ParseIPRange\<close>: append, check the safety limit, increment, compare.\<close>

function range_loop :: "string \<Rightarrow> IP \<Rightarrow> IP \<Rightarrow> string list \<Rightarrow> range_error + string list" where
  "range_loop rangeStr ip end_ip ips =
     (if compareIPs ip end_ip \<le> 0 then
        (let ips1 = ips @ [IP_String ip]
         in if length ips1 > 10000 then Inl (RangeTooLarge rangeStr)
            else range_loop rangeStr (incrementIP ip) end_ip ips1)
      else Inr ips)"
  by pat_completeness auto
termination
  by (relation "measure (\<lambda>(rangeStr, ip, end_ip, ips). 10001 - length ips)") auto

declare range_loop.simps [simp del]

text \<open>\<^verbatim>\<open>strings.Split(s, "-")\<close> for a one-byte separator.\<close>

fun Split :: "string \<Rightarrow> char \<Rightarrow> string list" where
  "Split [] sep = [[]]"
| "Split (c # cs) sep =
     (if c = sep then [] # Split cs sep
      else (case Split cs sep of p # ps \<Rightarrow> (c # p) # ps | [] \<Rightarrow> [[c]]))"

text \<open>\<^verbatim>\<open>ParseIPRange\<close>. \<^verbatim>\<open>strings.TrimSpace\<close> and \<^verbatim>\<open>net.ParseIP\<close> belong to the standard library
  and are parameters.\<close>

definition ParseIPRange ::
  "(string \<Rightarrow> string) \<Rightarrow> (string \<Rightarrow> IP option) \<Rightarrow> string \<Rightarrow> range_error + string list" where
  "ParseIPRange TrimSpace ParseIP rangeStr0 =
     (let rangeStr = TrimSpace rangeStr0
      in if CHR ''-'' \<notin> set rangeStr then
           (case ParseIP rangeStr of
              None \<Rightarrow> Inl (InvalidIPAddress rangeStr)
            | Some ip \<Rightarrow> Inr [rangeStr])
         else
           (let parts = Split rangeStr CHR ''-''
            in if length parts \<noteq> 2 then Inl (InvalidRangeFormat rangeStr)
               else
                 (let startIP = TrimSpace (parts ! 0);
                      endIP = TrimSpace (parts ! 1)
                  in case ParseIP startIP of
                       None \<Rightarrow> Inl (InvalidStartIP startIP)
                     | Some start16 \<Rightarrow>
                         (case To4 start16 of
                            None \<Rightarrow> Inl (OnlyIPv4Supported startIP)
                          | Some start \<Rightarrow>
                              (case ParseIP endIP of
                                 None \<Rightarrow> Inl (InvalidEndIP endIP)
                               | Some end16 \<Rightarrow>
                                   (case To4 end16 of
                                      None \<Rightarrow> Inl (OnlyIPv4Supported endIP)
                                    | Some end_ip \<Rightarrow>
                                        if compareIPs start end_ip > 0
                                        then Inl (StartAfterEnd startIP endIP)
                                        else range_loop rangeStr start end_ip []))))))"

text \<open>The value of an address as a number, most significant byte first.\<close>

definition ip_num :: "IP \<Rightarrow> nat" where
  "ip_num ip = foldl (\<lambda>n b. n * 256 + unat b) 0 ip"

text \<open>Stand-ins for the two library functions in the examples: blanks are trimmed, and an
  address is four decimal numbers up to 255 separated by dots, returned in the 16-byte form
  as \<^verbatim>\<open>net.ParseIP\<close> returns it.\<close>

definition example_TrimSpace :: "string \<Rightarrow> string" where
  "example_TrimSpace s = rev (dropWhile (\<lambda>c. c = CHR '' '') (rev (dropWhile (\<lambda>c. c = CHR '' '') s)))"

definition digit_value :: "char \<Rightarrow> nat option" where
  "digit_value c =
     (if (48::nat) \<le> of_char c \<and> of_char c \<le> (57::nat) then Some (of_char c - 48) else None)"

fun parse_decimal :: "string \<Rightarrow> nat \<Rightarrow> nat option" where
  "parse_decimal [] acc = Some acc"
| "parse_decimal (c # cs) acc =
     (case digit_value c of None \<Rightarrow> None | Some d \<Rightarrow> parse_decimal cs (acc * 10 + d))"

definition parse_octet :: "string \<Rightarrow> byte option" where
  "parse_octet s =
     (if s = [] \<or> length s > 3 then None
      else (case parse_decimal s 0 of
              None \<Rightarrow> None
            | Some n \<Rightarrow> if n \<le> 255 then Some (of_nat n) else None))"

definition v4_in_v6 :: "byte list \<Rightarrow> IP" where
  "v4_in_v6 bs = replicate 10 0 @ [255, 255] @ bs"

definition example_ParseIP :: "string \<Rightarrow> IP option" where
  "example_ParseIP s =
     (case map parse_octet (Split s CHR ''.'') of
        [Some a, Some b, Some c, Some d] \<Rightarrow> Some (v4_in_v6 [a, b, c, d])
      | _ \<Rightarrow> None)"

text \<open>The range that consists of the last IPv4 address alone.\<close>

definition broadcast_range :: string where
  "broadcast_range = ''255.255.255.255-255.255.255.255''"

subsection \<open>The worker pools\<close>

text \<open>\<^verbatim>\<open>New\<close>: the number of workers is the configured concurrency, or 5 when that is not
  positive.\<close>

definition New_concurrency :: "int64 \<Rightarrow> int64" where
  "New_concurrency configured = (if sint configured \<le> 0 then 5 else configured)"

definition worker_count :: "int64 \<Rightarrow> nat" where
  "worker_count configured = nat (sint (New_concurrency configured))"

text \<open>
  \<^verbatim>\<open>ScanAll\<close> and \<^verbatim>\<open>ValidateConnections\<close> run goroutines over channels. They are modelled as
  transition systems whose steps are the atomic actions of the goroutines, in any
  interleaving: the main goroutine sending the jobs and closing the channel, each worker
  receiving a job, deciding, finishing a job and leaving its loop when the channel is closed
  and drained, the helper goroutine closing the result channel after \<^verbatim>\<open>wg.Wait()\<close>, and the
  main goroutine receiving results. Both channels are buffered with capacity
  \<^verbatim>\<open>len(s.cfg.Servers)\<close>, which is never exceeded, so no send blocks and a send is part of
  the step that produces the value. What a BMC answers, the clock, and whether and when
  the context is done are chosen by the environment.
\<close>

text \<open>Where a worker of \<^verbatim>\<open>ValidateConnections\<close> stands: at the \<^verbatim>\<open>range\<close> over the job channel,
  inside \<^verbatim>\<open>validateConnection\<close> for a server, or past its loop.\<close>

datatype vworker = VIdle | VValidating ServerConfig | VExited

record val_state =
  v_unsent :: "ServerConfig list"
  v_jobs :: "ServerConfig list"
  v_jobs_closed :: bool
  v_workers :: "vworker list"
  v_results :: "string \<rightharpoonup> go_error option"
  v_returned :: bool

definition val_init :: "nat \<Rightarrow> ServerConfig list \<Rightarrow> val_state" where
  "val_init n servers =
     \<lparr>v_unsent = servers, v_jobs = [], v_jobs_closed = False, v_workers = replicate n VIdle,
      v_results = Map.empty, v_returned = False\<rparr>"

inductive val_step :: "val_state \<Rightarrow> val_state \<Rightarrow> bool" where
  v_send: "v_unsent s = x # xs \<Longrightarrow>
     val_step s (s\<lparr>v_unsent := xs, v_jobs := v_jobs s @ [x]\<rparr>)"
| v_close_jobs: "v_unsent s = [] \<Longrightarrow> \<not> v_jobs_closed s \<Longrightarrow>
     val_step s (s\<lparr>v_jobs_closed := True\<rparr>)"
| v_receive: "i < length (v_workers s) \<Longrightarrow> v_workers s ! i = VIdle \<Longrightarrow> v_jobs s = x # xs \<Longrightarrow>
     val_step s (s\<lparr>v_jobs := xs, v_workers := (v_workers s)[i := VValidating x]\<rparr>)"
| v_store: "i < length (v_workers s) \<Longrightarrow> v_workers s ! i = VValidating x \<Longrightarrow>
     val_step s (s\<lparr>v_workers := (v_workers s)[i := VIdle],
                  v_results := (v_results s)(sc_Host x \<mapsto> err)\<rparr>)"
| v_exit: "i < length (v_workers s) \<Longrightarrow> v_workers s ! i = VIdle \<Longrightarrow> v_jobs s = [] \<Longrightarrow>
     v_jobs_closed s \<Longrightarrow>
     val_step s (s\<lparr>v_workers := (v_workers s)[i := VExited]\<rparr>)"
| v_return: "\<forall>w \<in> set (v_workers s). w = VExited \<Longrightarrow> v_jobs_closed s \<Longrightarrow> \<not> v_returned s \<Longrightarrow>
     val_step s (s\<lparr>v_returned := True\<rparr>)"

text \<open>The states \<^verbatim>\<open>ValidateConnections\<close> can be in, with \<open>n\<close> workers; the map it returns is
  \<open>v_results\<close> of a state with \<open>v_returned\<close>.\<close>

definition val_reachable :: "nat \<Rightarrow> ServerConfig list \<Rightarrow> val_state \<Rightarrow> bool" where
  "val_reachable n servers s = val_step\<^sup>*\<^sup>* (val_init n servers) s"

definition validating :: "vworker \<Rightarrow> ServerConfig list" where
  "validating w = (case w of VValidating x \<Rightarrow> [x] | _ \<Rightarrow> [])"

text \<open>The result of one \<^verbatim>\<open>scanServer\<close> call or of the cancelled branch, with its duration.\<close>

record 'f scanResult =
  sr_info :: "'f ServerInfo"
  sr_duration :: duration

text \<open>The record a worker sends when the context is done before the scan starts.\<close>

definition cancelled_record :: "'f scan_float_ops \<Rightarrow> int \<Rightarrow> ServerConfig \<Rightarrow> go_error \<Rightarrow> 'f ServerInfo" where
  "cancelled_record sops now server ctx_err =
     (new_ServerInfo sops now server)\<lparr>si_Error := Some ctx_err\<rparr>"

text \<open>Where a worker of \<^verbatim>\<open>ScanAll\<close> stands: at the \<^verbatim>\<open>range\<close> over the job channel, at the
  \<^verbatim>\<open>select\<close> with a job in hand, inside \<^verbatim>\<open>scanServer\<close>, or past its loop.\<close>

datatype sworker = Idle | Selecting ServerConfig | Scanning ServerConfig | Exited

record 'f scan_state =
  s_unsent :: "ServerConfig list"
  s_jobs :: "ServerConfig list"
  s_jobs_closed :: bool
  s_workers :: "sworker list"
  s_results :: "'f scanResult list"
  s_results_closed :: bool
  s_serverInfos :: "'f ServerInfo list"
  s_durations :: "duration list"
  s_ctx_err :: "go_error option"
  s_returned :: bool

definition scan_init :: "nat \<Rightarrow> ServerConfig list \<Rightarrow> go_error option \<Rightarrow> 'f scan_state" where
  "scan_init n servers ctx_err =
     \<lparr>s_unsent = servers, s_jobs = [], s_jobs_closed = False, s_workers = replicate n Idle,
      s_results = [], s_results_closed = False, s_serverInfos = [], s_durations = [],
      s_ctx_err = ctx_err, s_returned = False\<rparr>"

inductive scan_step ::
  "'f float64_ops \<Rightarrow> 'f scan_float_ops \<Rightarrow> 'f scan_state \<Rightarrow> 'f scan_state \<Rightarrow> bool"
  for ops :: "'f float64_ops" and sops :: "'f scan_float_ops" where
  send: "s_unsent s = x # xs \<Longrightarrow>
     scan_step ops sops s (s\<lparr>s_unsent := xs, s_jobs := s_jobs s @ [x]\<rparr>)"
| close_jobs: "s_unsent s = [] \<Longrightarrow> \<not> s_jobs_closed s \<Longrightarrow>
     scan_step ops sops s (s\<lparr>s_jobs_closed := True\<rparr>)"
| ctx_done: "s_ctx_err s = None \<Longrightarrow> e = ContextCanceled \<or> e = DeadlineExceeded \<Longrightarrow>
     scan_step ops sops s (s\<lparr>s_ctx_err := Some e\<rparr>)"
| receive: "i < length (s_workers s) \<Longrightarrow> s_workers s ! i = Idle \<Longrightarrow> s_jobs s = x # xs \<Longrightarrow>
     scan_step ops sops s (s\<lparr>s_jobs := xs, s_workers := (s_workers s)[i := Selecting x]\<rparr>)"
| select_done: "i < length (s_workers s) \<Longrightarrow> s_workers s ! i = Selecting x \<Longrightarrow>
     s_ctx_err s = Some e \<Longrightarrow>
     scan_step ops sops s
       (s\<lparr>s_workers := (s_workers s)[i := Idle],
          s_results := s_results s @ [\<lparr>sr_info = cancelled_record sops now x e, sr_duration = 0\<rparr>]\<rparr>)"
| select_default: "i < length (s_workers s) \<Longrightarrow> s_workers s ! i = Selecting x \<Longrightarrow>
     s_ctx_err s = None \<Longrightarrow>
     scan_step ops sops s (s\<lparr>s_workers := (s_workers s)[i := Scanning x]\<rparr>)"
| scanned: "i < length (s_workers s) \<Longrightarrow> s_workers s ! i = Scanning x \<Longrightarrow>
     scan_step ops sops s
       (s\<lparr>s_workers := (s_workers s)[i := Idle],
          s_results := s_results s @ [\<lparr>sr_info = scanServer ops sops now b x, sr_duration = d\<rparr>]\<rparr>)"
| exit: "i < length (s_workers s) \<Longrightarrow> s_workers s ! i = Idle \<Longrightarrow> s_jobs s = [] \<Longrightarrow>
     s_jobs_closed s \<Longrightarrow>
     scan_step ops sops s (s\<lparr>s_workers := (s_workers s)[i := Exited]\<rparr>)"
| close_results: "\<forall>w \<in> set (s_workers s). w = Exited \<Longrightarrow> \<not> s_results_closed s \<Longrightarrow>
     scan_step ops sops s (s\<lparr>s_results_closed := True\<rparr>)"
| collect: "s_results s = r # rs \<Longrightarrow>
     scan_step ops sops s
       (s\<lparr>s_results := rs, s_serverInfos := s_serverInfos s @ [sr_info r],
          s_durations := s_durations s @ [sr_duration r]\<rparr>)"
| return: "s_results s = [] \<Longrightarrow> s_results_closed s \<Longrightarrow> \<not> s_returned s \<Longrightarrow>
     scan_step ops sops s (s\<lparr>s_returned := True\<rparr>)"

text \<open>The states \<^verbatim>\<open>ScanAll\<close> can be in, with \<open>n\<close> workers and a context that is done with
  \<open>ctx_err\<close> (or not yet done) at the call; the slice it returns is \<open>s_serverInfos\<close> of a state
  with \<open>s_returned\<close>.\<close>

definition scan_reachable ::
  "'f float64_ops \<Rightarrow> 'f scan_float_ops \<Rightarrow> nat \<Rightarrow> ServerConfig list \<Rightarrow> go_error option
     \<Rightarrow> 'f scan_state \<Rightarrow> bool" where
  "scan_reachable ops sops n servers ctx_err s =
     (scan_step ops sops)\<^sup>*\<^sup>* (scan_init n servers ctx_err) s"

definition in_hand :: "sworker \<Rightarrow> ServerConfig list" where
  "in_hand w = (case w of Selecting x \<Rightarrow> [x] | Scanning x \<Rightarrow> [x] | _ \<Rightarrow> [])"

(*DEFS-END*)

chapter \<open>Properties\<close>

section \<open>Per-host timeout\<close>

lemma sint_seconds_times_Second:
  assumes "0 < sint s" and "sint s \<le> 9223372036"
  shows "sint (s * Second) = sint s * 1000000000"
proof -
  have "sint (s * Second) = signed_take_bit 63 (sint s * sint (Second :: int64))"
    by (simp add: sint_word_ariths)
  also have "sint (Second :: int64) = 1000000000"
    by (simp add: Second_def)
  also have "signed_take_bit 63 (sint s * 1000000000) = sint s * 1000000000"
    using assms by (intro signed_take_bit_int_eq_self) simp_all
  finally show ?thesis .
qed

text \<open>
  C7 (as stated, refuted). The claim says that with both a host-specific and a default
  timeout set, the duration of the per-host context is the minimum of the two. With a
  default of 60 seconds and a host timeout of 120 seconds the code resolves 120 seconds.
\<close>

theorem C7_timeout_not_min_counterexample:
  "sint (scanServer_timeout 60 defaults_60 server_120)
     \<noteq> min (sint ((120 :: int64) * Second)) (sint ((60 :: int64) * Second))"
  by (simp add: scanServer_timeout_def GetTimeout_def secondsPtrToDuration_def Timeout_def
      secondsToDuration_def defaults_60_def server_120_def Second_def)

text \<open>
  C7 (amended). The host-specific timeout overrides the default: when it is set to a
  positive number of seconds \<open>s\<close>, the per-host timeout is \<open>s * Second\<close>, computed as the
  code computes it in wrapping 64-bit arithmetic, whatever the default is (for
  \<open>s \<le> 9223372036\<close> the product does not wrap and is exactly \<open>s\<close> seconds in nanoseconds);
  when it is unset or not positive, the per-host timeout is the default timeout.
\<close>

theorem C7_timeout_host_overrides_default:
  "(\<forall>s. sc_TimeoutSeconds server = Some s \<and> 0 < sint s \<longrightarrow>
        scanServer_timeout dts dflt server = s * Second)
   \<and> (\<forall>s. sc_TimeoutSeconds server = Some s \<and> 0 < sint s \<and> sint s \<le> 9223372036 \<longrightarrow>
        sint (scanServer_timeout dts dflt server) = sint s * 1000000000)
   \<and> ((sc_TimeoutSeconds server = None \<or> (\<exists>s. sc_TimeoutSeconds server = Some s \<and> sint s \<le> 0)) \<longrightarrow>
        scanServer_timeout dts dflt server = Timeout dts dflt)"
  by (auto simp: scanServer_timeout_def GetTimeout_def secondsPtrToDuration_def
      sint_seconds_times_Second)

theorem C7_timeout_host_overrides_default_witness:
  "sc_TimeoutSeconds server_120 = Some 120 \<and> 0 < sint (120 :: int64)
   \<and> sint (120 :: int64) \<le> 9223372036
   \<and> scanServer_timeout 60 defaults_60 server_120 = 120 * Second
   \<and> sint (scanServer_timeout 60 defaults_60 server_120) = 120000000000
   \<and> scanServer_timeout 60 defaults_60 (server_120\<lparr>sc_TimeoutSeconds := None\<rparr>)
       = Timeout 60 defaults_60"
  using C7_timeout_host_overrides_default [of server_120 60 defaults_60]
    C7_timeout_host_overrides_default [of "server_120\<lparr>sc_TimeoutSeconds := None\<rparr>" 60 defaults_60]
  by (simp add: server_120_def Second_def)

section \<open>Decimal formatting is injective\<close>

lemma digit_char_inj: "a < 10 \<Longrightarrow> b < 10 \<Longrightarrow> digit_char a = digit_char b \<Longrightarrow> a = b"
proof -
  assume "a < 10" and "b < 10" and "digit_char a = digit_char b"
  moreover have "distinct ''0123456789''" by simp
  ultimately show "a = b"
    unfolding digit_char_def by (subst (asm) nth_eq_iff_index_eq) simp_all
qed

lemma digit_char_not_minus: "d < 10 \<Longrightarrow> digit_char d \<noteq> CHR ''-''"
proof
  assume d: "d < 10" and m: "digit_char d = CHR ''-''"
  have "length ''0123456789'' = 10" by simp
  with d have "''0123456789'' ! d \<in> set ''0123456789''" by (intro nth_mem) simp
  with m have "CHR ''-'' \<in> set ''0123456789''"
    unfolding digit_char_def by simp
  then show False by simp
qed

lemma show_nat_numeral [simp]:
  "show_nat (numeral k) = (if numeral k < (10::nat) then [digit_char (numeral k)]
     else show_nat (numeral k div 10) @ [digit_char (numeral k mod 10)])"
  by (rule show_nat.simps)

lemma show_nat_0 [simp]: "show_nat 0 = ''0''"
  by (subst show_nat.simps) (simp add: digit_char_def)

lemma show_nat_1 [simp]: "show_nat 1 = ''1''"
  by (subst show_nat.simps) (simp add: digit_char_def)

lemma show_nat_Suc_0 [simp]: "show_nat (Suc 0) = ''1''"
  by (subst show_nat.simps) (simp add: digit_char_def)

lemma show_nat_nonempty: "show_nat n \<noteq> []"
  by (subst show_nat.simps) simp

lemma show_nat_no_minus: "CHR ''-'' \<notin> set (show_nat n)"
proof (induction n rule: show_nat.induct)
  case (1 n)
  show ?case
  proof (cases "n < 10")
    case True
    then show ?thesis using digit_char_not_minus [of n]
      by (subst show_nat.simps) auto
  next
    case False
    have "n mod 10 < 10" by simp
    with False 1 digit_char_not_minus [of "n mod 10"] show ?thesis
      by (subst show_nat.simps) auto
  qed
qed

lemma show_nat_inj: "show_nat n = show_nat m \<Longrightarrow> n = m"
proof (induction n arbitrary: m rule: show_nat.induct)
  case (1 n)
  show ?case
  proof (cases "n < 10")
    case n: True
    show ?thesis
    proof (cases "m < 10")
      case True
      with n 1(2) show ?thesis
        by (simp add: show_nat.simps [of n] show_nat.simps [of m] digit_char_inj)
    next
      case False
      with n 1(2) show_nat_nonempty [of "m div 10"] show ?thesis
        by (simp add: show_nat.simps [of n] show_nat.simps [of m] Cons_eq_append_conv)
    qed
  next
    case n: False
    show ?thesis
    proof (cases "m < 10")
      case True
      with n 1(2) show_nat_nonempty [of "n div 10"] show ?thesis
        by (simp add: show_nat.simps [of n] show_nat.simps [of m] append_eq_Cons_conv)
    next
      case False
      with n 1(2) have eq: "show_nat (n div 10) = show_nat (m div 10)"
        and dg: "digit_char (n mod 10) = digit_char (m mod 10)"
        by (simp_all add: show_nat.simps [of n] show_nat.simps [of m])
      from 1(1) [OF n eq] have "n div 10 = m div 10" .
      moreover from dg have "n mod 10 = m mod 10"
        by (intro digit_char_inj) simp_all
      ultimately show ?thesis
        by (metis div_mult_mod_eq)
    qed
  qed
qed

lemma show_int_inj: "show_int i = show_int j \<Longrightarrow> i = j"
  using show_nat_no_minus [of "nat i"] show_nat_no_minus [of "nat j"]
    show_nat_nonempty [of "nat i"] show_nat_nonempty [of "nat j"]
  by (auto simp: show_int_def split: if_splits dest!: show_nat_inj)
     (metis list.set_intros(1))+

lemma show_int64_inj: "show_int64 a = show_int64 b \<Longrightarrow> a = b"
  by (auto simp: show_int64_def dest!: show_int_inj intro: signed_word_eqI)

section \<open>Fingerprint: RAM module size\<close>

lemma fingerprint_memory_none:
  "\<forall>m \<in> set mems. \<not> IsPopulated m \<Longrightarrow> fingerprint_memory mems fp = fp"
  by (induction mems) simp_all

lemma fingerprint_memory_first:
  assumes "i < length mems" and "IsPopulated (mems ! i)" and "\<forall>j<i. \<not> IsPopulated (mems ! j)"
  shows "fingerprint_memory mems fp =
           fp\<lparr>fp_RAMType := mem_Type (mems ! i), fp_RAMSpeedMHz := mem_SpeedMHz (mems ! i),
              fp_RAMModuleSizeGiB := go_div (mem_CapacityMiB (mems ! i) + 512) 1024\<rparr>"
  using assms
proof (induction mems arbitrary: i)
  case Nil
  then show ?case by simp
next
  case (Cons m mems)
  show ?case
  proof (cases i)
    case 0
    with Cons.prems show ?thesis by simp
  next
    case (Suc k)
    with Cons.prems have "\<not> IsPopulated m" by auto
    moreover from Suc Cons.prems have "k < length mems" "IsPopulated (mems ! k)"
      "\<forall>j<k. \<not> IsPopulated (mems ! j)" by auto
    ultimately show ?thesis using Cons.IH [of k] Suc by simp
  qed
qed

lemma fingerprint_cpus_module [simp]:
  "fp_RAMModuleSizeGiB (fingerprint_cpus cpus fp) = fp_RAMModuleSizeGiB fp"
  by (induction cpus) (simp_all add: Let_def)

lemma fingerprint_gpus_module [simp]:
  "fp_RAMModuleSizeGiB (fingerprint_gpus ops gpus fp) = fp_RAMModuleSizeGiB fp"
  by (simp add: fingerprint_gpus_def split: list.splits)

lemma Key_module_size:
  "Key (f\<lparr>fp_RAMModuleSizeGiB := m\<rparr>) = Key f \<Longrightarrow> m = fp_RAMModuleSizeGiB f"
  by (simp add: Key_def show_int64_inj)

lemma go_div_round_gib:
  assumes "0 \<le> sint c" and "sint c \<le> 9223372036854775295"
  shows "sint (go_div (c + 512) 1024) = (sint c + 512) div 1024"
proof -
  have s: "sint (c + 512) = sint c + 512"
    using assms by (simp add: sint_word_ariths signed_take_bit_int_eq_self)
  have "sint (go_div (c + 512) 1024) = signed_take_bit 63 ((sint c + 512) sdiv 1024)"
    by (simp add: go_div_def s signed_of_int)
  also have "(sint c + 512) sdiv 1024 = (sint c + 512) div 1024"
    using assms by (simp add: signed_divide_int_def sgn_if)
  also have "signed_take_bit 63 ((sint c + 512) div 1024) = (sint c + 512) div 1024"
    using assms by (intro signed_take_bit_int_eq_self) simp_all
  finally show ?thesis .
qed

text \<open>
  C3. The fingerprint has a field for the size of one DIMM. Its value is
  \<^verbatim>\<open>(CapacityMiB + 512) / 1024\<close> in Go's integer arithmetic for the first DIMM of the
  record whose state is \<^verbatim>\<open>Enabled\<close>, and 0 when no DIMM is populated; and the field takes part
  in the grouping key: two fingerprints that differ in it alone have different keys.
\<close>

theorem C3_ram_module_size:
  "(\<forall>i. i < length (si_Memory s) \<and> IsPopulated (si_Memory s ! i)
         \<and> (\<forall>j<i. \<not> IsPopulated (si_Memory s ! j)) \<longrightarrow>
       fp_RAMModuleSizeGiB (buildFingerprint ops s)
         = go_div (mem_CapacityMiB (si_Memory s ! i) + 512) 1024)
   \<and> ((\<forall>m \<in> set (si_Memory s). \<not> IsPopulated m) \<longrightarrow>
         fp_RAMModuleSizeGiB (buildFingerprint ops s) = 0)
   \<and> (\<forall>f m. m \<noteq> fp_RAMModuleSizeGiB f \<longrightarrow> Key (f\<lparr>fp_RAMModuleSizeGiB := m\<rparr>) \<noteq> Key f)"
proof (intro conjI allI impI)
  fix i
  assume "i < length (si_Memory s) \<and> IsPopulated (si_Memory s ! i)
            \<and> (\<forall>j<i. \<not> IsPopulated (si_Memory s ! j))"
  then show "fp_RAMModuleSizeGiB (buildFingerprint ops s)
               = go_div (mem_CapacityMiB (si_Memory s ! i) + 512) 1024"
    by (simp add: buildFingerprint_def fingerprint_memory_first [of i])
next
  assume "\<forall>m \<in> set (si_Memory s). \<not> IsPopulated m"
  then show "fp_RAMModuleSizeGiB (buildFingerprint ops s) = 0"
    by (simp add: buildFingerprint_def fingerprint_memory_none)
next
  fix f :: HardwareFingerprint and m
  assume "m \<noteq> fp_RAMModuleSizeGiB f"
  then show "Key (f\<lparr>fp_RAMModuleSizeGiB := m\<rparr>) \<noteq> Key f"
    using Key_module_size by blast
qed

theorem C3_ram_module_size_witness:
  "length (si_Memory two_slot_host) = 2
   \<and> \<not> IsPopulated (si_Memory two_slot_host ! 0) \<and> IsPopulated (si_Memory two_slot_host ! 1)
   \<and> fp_RAMModuleSizeGiB (buildFingerprint exact_ops two_slot_host) = 256
   \<and> si_Memory (host_record ''h2'' ''Dell'' ''R750'' ''Xeon'') = []
   \<and> fp_RAMModuleSizeGiB (buildFingerprint exact_ops (host_record ''h2'' ''Dell'' ''R750'' ''Xeon'')) = 0
   \<and> (128 :: int64) \<noteq> fp_RAMModuleSizeGiB (buildFingerprint exact_ops two_slot_host)
   \<and> Key ((buildFingerprint exact_ops two_slot_host)\<lparr>fp_RAMModuleSizeGiB := 128\<rparr>)
        \<noteq> Key (buildFingerprint exact_ops two_slot_host)"
proof -
  have m: "si_Memory two_slot_host = [dimm ''A2'' 0 ''Absent'', dimm ''A1'' 262144 ''Enabled'']"
    by (simp add: two_slot_host_def host_record_def)
  have p: "1 < length (si_Memory two_slot_host) \<and> IsPopulated (si_Memory two_slot_host ! 1)
             \<and> (\<forall>j<1. \<not> IsPopulated (si_Memory two_slot_host ! j))"
    by (simp add: m dimm_def IsPopulated_def MemoryStateEnabled_def)
  have q: "\<forall>m \<in> set (si_Memory (host_record ''h2'' ''Dell'' ''R750'' ''Xeon'')). \<not> IsPopulated m"
    by (simp add: host_record_def)
  have v: "go_div (mem_CapacityMiB (si_Memory two_slot_host ! 1) + 512) 1024 = (256 :: int64)"
    by (simp add: m dimm_def go_div_def signed_divide_int_def)
  note t1 = C3_ram_module_size [of two_slot_host exact_ops]
  note t2 = C3_ram_module_size [of "host_record ''h2'' ''Dell'' ''R750'' ''Xeon''" exact_ops]
  from t1 p v have a: "fp_RAMModuleSizeGiB (buildFingerprint exact_ops two_slot_host) = 256"
    by metis
  from t2 q have b: "fp_RAMModuleSizeGiB (buildFingerprint exact_ops (host_record ''h2'' ''Dell'' ''R750'' ''Xeon'')) = 0"
    by blast
  have c: "(128 :: int64) \<noteq> fp_RAMModuleSizeGiB (buildFingerprint exact_ops two_slot_host)"
    by (simp add: a)
  from t1 c have "Key ((buildFingerprint exact_ops two_slot_host)\<lparr>fp_RAMModuleSizeGiB := 128\<rparr>)
        \<noteq> Key (buildFingerprint exact_ops two_slot_host)" by blast
  have e: "si_Memory (host_record ''h2'' ''Dell'' ''R750'' ''Xeon'') = []"
    by (simp add: host_record_def)
  have l: "length (si_Memory two_slot_host) = 2 \<and> \<not> IsPopulated (si_Memory two_slot_host ! 0)"
    using p by (simp add: m)
  from \<open>Key ((buildFingerprint exact_ops two_slot_host)\<lparr>fp_RAMModuleSizeGiB := 128\<rparr>)
        \<noteq> Key (buildFingerprint exact_ops two_slot_host)\<close> p l e a b c
  show ?thesis by blast
qed

section \<open>The model of sort.Slice sorts\<close>

lemma mset_sort_insert [simp]: "mset (sort_insert lt x ys) = add_mset x (mset ys)"
  by (induction ys) simp_all

lemma set_sort_insert [simp]: "set (sort_insert lt x ys) = insert x (set ys)"
  by (induction ys) auto

lemma mset_sort_Slice [simp]: "mset (sort_Slice lt xs) = mset xs"
  by (induction xs) simp_all

lemma set_sort_Slice [simp]: "set (sort_Slice lt xs) = set xs"
  by (metis mset_sort_Slice set_mset_mset)

lemma length_sort_Slice [simp]: "length (sort_Slice lt xs) = length xs"
  by (metis mset_sort_Slice size_mset)

lemma distinct_sort_Slice [simp]: "distinct (sort_Slice lt xs) = distinct xs"
  by (metis mset_sort_Slice distinct_count_atmost_1 set_mset_mset)

lemma sorted_sort_insert:
  assumes asym: "\<And>a b. lt a b \<Longrightarrow> \<not> lt b a"
    and ntrans: "\<And>a b c. \<not> lt b a \<Longrightarrow> \<not> lt c b \<Longrightarrow> \<not> lt c a"
    and "sorted_wrt (\<lambda>a b. \<not> lt b a) ys"
  shows "sorted_wrt (\<lambda>a b. \<not> lt b a) (sort_insert lt x ys)"
  using assms(3)
proof (induction ys)
  case Nil
  then show ?case by simp
next
  case (Cons y ys)
  show ?case
  proof (cases "lt y x")
    case True
    have "\<forall>z \<in> set (sort_insert lt x ys). \<not> lt z y"
    proof
      fix z assume "z \<in> set (sort_insert lt x ys)"
      then have "z = x \<or> z \<in> set ys" by simp
      with True Cons.prems asym show "\<not> lt z y" by auto
    qed
    with True Cons show ?thesis by simp
  next
    case False
    with Cons.prems ntrans have "\<forall>z \<in> set ys. \<not> lt z x" by auto
    with False Cons.prems show ?thesis by simp
  qed
qed

lemma sorted_sort_Slice:
  assumes "\<And>a b. lt a b \<Longrightarrow> \<not> lt b a"
    and "\<And>a b c. \<not> lt b a \<Longrightarrow> \<not> lt c b \<Longrightarrow> \<not> lt c a"
  shows "sorted_wrt (\<lambda>a b. \<not> lt b a) (sort_Slice lt xs)"
proof (induction xs)
  case Nil
  show ?case by simp
next
  case (Cons x xs)
  from assms Cons show ?case
    unfolding sort_Slice.simps by (rule sorted_sort_insert)
qed

text \<open>Two arrangements of the same elements, both in order, are equal when the order
  separates any two different elements.\<close>

lemma sorted_arrangement_unique:
  assumes "\<And>a b. \<not> lt a b \<Longrightarrow> \<not> lt b a \<Longrightarrow> a = b"
    and irrefl: "\<And>a. \<not> lt a a"
    and "sorted_wrt (\<lambda>a b. \<not> lt b a) xs" and "sorted_wrt (\<lambda>a b. \<not> lt b a) ys"
    and "mset xs = mset ys"
  shows "xs = ys"
  using assms(3-)
proof (induction xs arbitrary: ys)
  case Nil
  then show ?case by simp
next
  case (Cons x xs)
  then obtain y ys' where ys: "ys = y # ys'"
    by (cases ys) auto
  have "x \<in> set ys" using Cons.prems(3) by (metis list.set_intros(1) set_mset_mset)
  then have 1: "\<not> lt x y" using Cons.prems(2) ys irrefl by auto
  have "y \<in> set (x # xs)" using Cons.prems(3) ys by (metis list.set_intros(1) set_mset_mset)
  then have 2: "\<not> lt y x" using Cons.prems(1) irrefl by auto
  from 1 2 assms(1) have "x = y" by blast
  with Cons ys show ?case by simp
qed

section \<open>Storage summary\<close>

lemma media_order_asym:
  fixes S ma mb :: string and ca cb :: int
  assumes "if ma \<noteq> mb then (if ma = S then True else if mb = S then False else ma < mb) else cb < ca"
  shows "\<not> (if mb \<noteq> ma then (if mb = S then True else if ma = S then False else mb < ma) else ca < cb)"
  using assms by (auto split: if_splits)

lemma media_order_ntrans:
  fixes S ma mb mc :: string and ca cb cc :: int
  assumes "\<not> (if mb \<noteq> ma then (if mb = S then True else if ma = S then False else mb < ma) else ca < cb)"
    and "\<not> (if mc \<noteq> mb then (if mc = S then True else if mb = S then False else mc < mb) else cb < cc)"
  shows "\<not> (if mc \<noteq> ma then (if mc = S then True else if ma = S then False else mc < ma) else ca < cc)"
  using assms by (auto split: if_splits)

lemma media_order_total:
  fixes S ma mb :: string and ca cb :: int
  assumes "\<not> (if ma \<noteq> mb then (if ma = S then True else if mb = S then False else ma < mb) else cb < ca)"
    and "\<not> (if mb \<noteq> ma then (if mb = S then True else if ma = S then False else mb < ma) else ca < cb)"
  shows "ma = mb \<and> ca = cb"
  using assms by (auto split: if_splits)

lemma driveKey_less_asym: "driveKey_less a b \<Longrightarrow> \<not> driveKey_less b a"
  unfolding driveKey_less_def by (rule media_order_asym)

lemma driveKey_less_irrefl: "\<not> driveKey_less a a"
  using driveKey_less_asym by blast

lemma driveKey_less_ntrans:
  "\<not> driveKey_less b a \<Longrightarrow> \<not> driveKey_less c b \<Longrightarrow> \<not> driveKey_less c a"
  unfolding driveKey_less_def by (rule media_order_ntrans)

lemma driveKey_less_total:
  assumes "\<not> driveKey_less a b" and "\<not> driveKey_less b a"
  shows "a = b"
proof -
  from assms have "mediaType a = mediaType b \<and> sint (capacityGB a) = sint (capacityGB b)"
    unfolding driveKey_less_def by (rule media_order_total)
  then have "mediaType a = mediaType b" "capacityGB a = capacityGB b"
    by (auto intro: signed_word_eqI)
  then show ?thesis by simp
qed


lemma count_drives_Cons:
  "count_drives ops (d # ds) (counts0, keys0) =
     count_drives ops ds
       (counts0(drive_key ops d \<mapsto> map_count counts0 (drive_key ops d) + 1),
        if counts0 (drive_key ops d) = None then keys0 @ [drive_key ops d] else keys0)"
  by (simp add: Let_def)

lemma keys_step_distinct:
  assumes "distinct keys0" and "set keys0 = dom counts0"
  shows "distinct (if counts0 k = None then keys0 @ [k] else keys0)"
proof (cases "counts0 k")
  case None
  then have "k \<notin> dom counts0" by (simp add: domIff)
  with assms None show ?thesis by simp
next
  case (Some c)
  with assms show ?thesis by simp
qed

lemma keys_step_set:
  assumes "set keys0 = dom counts0"
  shows "set (if counts0 k = None then keys0 @ [k] else keys0) = insert k (set keys0)"
proof (cases "counts0 k")
  case None
  then show ?thesis by simp
next
  case (Some c)
  then have "k \<in> dom counts0" by (simp add: domIff)
  with assms Some show ?thesis by auto
qed

lemma map_count_upd:
  "map_count (counts0(k \<mapsto> map_count counts0 k + 1)) k' = map_count counts0 k' + (if k' = k then 1 else 0)"
  by (simp add: map_count_def)


lemma count_drives_props:
  assumes "distinct keys0" and "set keys0 = dom counts0"
    and "count_drives ops ds (counts0, keys0) = (counts, keys)"
  shows "distinct keys \<and> set keys = dom counts
         \<and> set keys = set keys0 \<union> drive_key ops ` set ds
         \<and> (\<forall>k. map_count counts k = map_count counts0 k + count (mset (map (drive_key ops) ds)) k)"
  using assms
proof (induction ds arbitrary: counts0 keys0)
  case Nil
  then show ?case by simp
next
  case (Cons d ds)
  define k where "k = drive_key ops d"
  define keys1 where "keys1 = (if counts0 k = None then keys0 @ [k] else keys0)"
  define counts1 where "counts1 = counts0(k \<mapsto> map_count counts0 k + 1)"
  have step: "count_drives ops ds (counts1, keys1) = (counts, keys)"
    using Cons.prems(3) unfolding count_drives_Cons k_def keys1_def counts1_def .
  have d1: "distinct keys1"
    unfolding keys1_def using Cons.prems(1,2) by (rule keys_step_distinct)
  have s0: "set keys1 = insert k (set keys0)"
    unfolding keys1_def using Cons.prems(2) by (rule keys_step_set)
  have s1: "set keys1 = dom counts1"
    unfolding s0 counts1_def using Cons.prems(2) by simp
  note IH = Cons.IH [OF d1 s1 step]
  note ih = IH [THEN conjunct1] IH [THEN conjunct2, THEN conjunct1]
    IH [THEN conjunct2, THEN conjunct2, THEN conjunct1]
    IH [THEN conjunct2, THEN conjunct2, THEN conjunct2, THEN spec]
  have a: "set keys = set keys0 \<union> drive_key ops ` set (d # ds)"
    unfolding ih(3) s0 k_def by simp
  have b: "map_count counts k' = map_count counts0 k' + count (mset (map (drive_key ops) (d # ds))) k'" for k'
    unfolding ih(4) counts1_def map_count_upd k_def by simp
  from ih(1,2) a b show ?case by (intro conjI allI)
qed

lemma count_drives_init:
  assumes "count_drives ops ds (Map.empty, []) = (counts, keys)"
  shows "distinct keys" and "set keys = set (map (drive_key ops) ds)"
    and "map_count counts k = count (mset (map (drive_key ops) ds)) k"
proof -
  have "distinct []" and "set [] = dom (Map.empty :: driveKey \<rightharpoonup> nat)" by simp_all
  note P = count_drives_props [OF this assms]
  show "distinct keys" by (rule P [THEN conjunct1])
  show "set keys = set (map (drive_key ops) ds)"
    using P [THEN conjunct2, THEN conjunct2, THEN conjunct1] by simp
  show "map_count counts k = count (mset (map (drive_key ops) ds)) k"
    using P [THEN conjunct2, THEN conjunct2, THEN conjunct2, THEN spec, of k]
    by (simp add: map_count_def)
qed

lemma NormalizeStorageSummary_sorted_keys:
  assumes "ds \<noteq> []"
  obtains ks where "distinct ks" and "set ks = set (map (drive_key ops) ds)"
    and "sorted_wrt (\<lambda>a b. \<not> driveKey_less b a) ks"
    and "NormalizeStorageSummary ops ds =
           Join (map (\<lambda>k. show_nat (count (mset (map (drive_key ops) ds)) k) @ times_sign
                          @ show_int64 (capacityGB k) @ ''GB '' @ mediaType k) ks) '', ''"
proof -
  obtain counts keys where ck: "count_drives ops ds (Map.empty, []) = (counts, keys)"
    by (cases "count_drives ops ds (Map.empty, [])")
  note p = count_drives_init [OF ck]
  let ?ks = "sort_Slice driveKey_less keys"
  have "distinct ?ks" "set ?ks = set (map (drive_key ops) ds)"
    using p(1,2) by simp_all
  moreover have "sorted_wrt (\<lambda>a b. \<not> driveKey_less b a) ?ks"
    by (rule sorted_sort_Slice) (fact driveKey_less_asym, fact driveKey_less_ntrans)
  moreover have "NormalizeStorageSummary ops ds =
           Join (map (\<lambda>k. show_nat (count (mset (map (drive_key ops) ds)) k) @ times_sign
                          @ show_int64 (capacityGB k) @ ''GB '' @ mediaType k) ?ks) '', ''"
  proof -
    have "drive_part counts = (\<lambda>k. show_nat (count (mset (map (drive_key ops) ds)) k) @ times_sign
                          @ show_int64 (capacityGB k) @ ''GB '' @ mediaType k)"
      by (rule ext) (simp add: drive_part_def p(3))
    with assms show ?thesis by (simp add: NormalizeStorageSummary_def ck)
  qed
  ultimately show thesis by (rule that)
qed

lemma strict_from_total:
  assumes "distinct ks" and "sorted_wrt (\<lambda>a b. \<not> driveKey_less b a) ks"
  shows "sorted_wrt driveKey_less ks"
  using assms
proof (induction ks)
  case Nil
  then show ?case by simp
next
  case (Cons k ks)
  have "driveKey_less k x" if "x \<in> set ks" for x
  proof (rule ccontr)
    assume "\<not> driveKey_less k x"
    moreover from that Cons.prems have "\<not> driveKey_less x k" by auto
    ultimately have "k = x" by (rule driveKey_less_total)
    with that Cons.prems show False by simp
  qed
  with Cons show ?case by simp
qed

lemma driveKey_less_iff:
  "driveKey_less a b \<longleftrightarrow>
     (mediaType a = ''SSD'' \<and> mediaType b \<noteq> ''SSD'')
     \<or> (mediaType a \<noteq> ''SSD'' \<and> mediaType b \<noteq> ''SSD'' \<and> mediaType a < mediaType b)
     \<or> (mediaType a = mediaType b \<and> sint (capacityGB b) < sint (capacityGB a))"
  unfolding driveKey_less_def by (cases "mediaType a = mediaType b") auto

lemma NormalizeStorageSummary_mset:
  assumes "mset (map (drive_key ops) ds) = mset (map (drive_key ops) ds')"
  shows "NormalizeStorageSummary ops ds = NormalizeStorageSummary ops ds'"
proof (cases "ds = []")
  case True
  with assms have "ds' = []" by simp
  with True show ?thesis by simp
next
  case False
  with assms have ne: "ds' \<noteq> []" by auto
  obtain ks where ks: "distinct ks" "set ks = set (map (drive_key ops) ds)"
    "sorted_wrt (\<lambda>a b. \<not> driveKey_less b a) ks"
    "NormalizeStorageSummary ops ds =
           Join (map (\<lambda>k. show_nat (count (mset (map (drive_key ops) ds)) k) @ times_sign
                          @ show_int64 (capacityGB k) @ ''GB '' @ mediaType k) ks) '', ''"
    using NormalizeStorageSummary_sorted_keys [OF False] by blast
  obtain ks' where ks': "distinct ks'" "set ks' = set (map (drive_key ops) ds')"
    "sorted_wrt (\<lambda>a b. \<not> driveKey_less b a) ks'"
    "NormalizeStorageSummary ops ds' =
           Join (map (\<lambda>k. show_nat (count (mset (map (drive_key ops) ds')) k) @ times_sign
                          @ show_int64 (capacityGB k) @ ''GB '' @ mediaType k) ks') '', ''"
    using NormalizeStorageSummary_sorted_keys [OF ne] by blast
  have "set ks = set ks'" using ks(2) ks'(2) assms by (metis set_mset_mset)
  then have "mset ks = mset ks'" using ks(1) ks'(1) by (simp add: set_eq_iff_mset_eq_distinct)
  then have "ks = ks'"
    using sorted_arrangement_unique [of driveKey_less ks ks'] ks(3) ks'(3)
      driveKey_less_total driveKey_less_irrefl by blast
  with ks(4) ks'(4) assms show ?thesis by simp
qed

text \<open>
  C4. \<^verbatim>\<open>NormalizeStorageSummary\<close> returns \<^verbatim>\<open>"no drives"\<close> for the empty list. For a non-empty list
  the result is the \<^verbatim>\<open>", "\<close>-joined list of one bucket \<^verbatim>\<open><count>\<times><cap>GB <media>\<close> per distinct
  (rounded capacity, media type) pair, the count being the number of drives with that pair,
  the buckets in the order: SSD first, other media types in bytewise lexicographic order,
  capacity descending within one media type. The result depends only on the multiset of the
  pairs; in particular it is the same for every permutation of the drives.
\<close>

theorem C4_storage_summary_canonical:
  "NormalizeStorageSummary ops [] = ''no drives''
   \<and> (ds \<noteq> [] \<longrightarrow>
        (\<exists>ks. distinct ks \<and> set ks = set (map (drive_key ops) ds)
           \<and> sorted_wrt (\<lambda>a b.
                 (mediaType a = ''SSD'' \<and> mediaType b \<noteq> ''SSD'')
                 \<or> (mediaType a \<noteq> ''SSD'' \<and> mediaType b \<noteq> ''SSD'' \<and> mediaType a < mediaType b)
                 \<or> (mediaType a = mediaType b \<and> sint (capacityGB b) < sint (capacityGB a))) ks
           \<and> NormalizeStorageSummary ops ds =
               Join (map (\<lambda>k. show_nat (count (mset (map (drive_key ops) ds)) k) @ times_sign
                              @ show_int64 (capacityGB k) @ ''GB '' @ mediaType k) ks) '', ''))
   \<and> (mset (map (drive_key ops) ds) = mset (map (drive_key ops) ds') \<longrightarrow>
        NormalizeStorageSummary ops ds = NormalizeStorageSummary ops ds')
   \<and> (mset ds = mset ds' \<longrightarrow> NormalizeStorageSummary ops ds = NormalizeStorageSummary ops ds')"
proof (intro conjI impI)
  show "NormalizeStorageSummary ops [] = ''no drives''"
    by (simp add: NormalizeStorageSummary_def)
next
  assume "ds \<noteq> []"
  then obtain ks where ks: "distinct ks" "set ks = set (map (drive_key ops) ds)"
    "sorted_wrt (\<lambda>a b. \<not> driveKey_less b a) ks"
    "NormalizeStorageSummary ops ds =
           Join (map (\<lambda>k. show_nat (count (mset (map (drive_key ops) ds)) k) @ times_sign
                          @ show_int64 (capacityGB k) @ ''GB '' @ mediaType k) ks) '', ''"
    using NormalizeStorageSummary_sorted_keys by blast
  from ks(1,3) have "sorted_wrt driveKey_less ks" by (rule strict_from_total)
  then have "sorted_wrt (\<lambda>a b.
                 (mediaType a = ''SSD'' \<and> mediaType b \<noteq> ''SSD'')
                 \<or> (mediaType a \<noteq> ''SSD'' \<and> mediaType b \<noteq> ''SSD'' \<and> mediaType a < mediaType b)
                 \<or> (mediaType a = mediaType b \<and> sint (capacityGB b) < sint (capacityGB a))) ks"
    by (rule sorted_wrt_mono_rel [rotated]) (simp only: driveKey_less_iff)
  with ks(1,2,4) show "\<exists>ks. distinct ks \<and> set ks = set (map (drive_key ops) ds)
           \<and> sorted_wrt (\<lambda>a b.
                 (mediaType a = ''SSD'' \<and> mediaType b \<noteq> ''SSD'')
                 \<or> (mediaType a \<noteq> ''SSD'' \<and> mediaType b \<noteq> ''SSD'' \<and> mediaType a < mediaType b)
                 \<or> (mediaType a = mediaType b \<and> sint (capacityGB b) < sint (capacityGB a))) ks
           \<and> NormalizeStorageSummary ops ds =
               Join (map (\<lambda>k. show_nat (count (mset (map (drive_key ops) ds)) k) @ times_sign
                              @ show_int64 (capacityGB k) @ ''GB '' @ mediaType k) ks) '', ''"
    by blast
next
  assume "mset (map (drive_key ops) ds) = mset (map (drive_key ops) ds')"
  then show "NormalizeStorageSummary ops ds = NormalizeStorageSummary ops ds'"
    by (rule NormalizeStorageSummary_mset)
next
  assume "mset ds = mset ds'"
  then have "mset (map (drive_key ops) ds) = mset (map (drive_key ops) ds')"
    by (metis mset_map)
  then show "NormalizeStorageSummary ops ds = NormalizeStorageSummary ops ds'"
    by (rule NormalizeStorageSummary_mset)
qed


lemma show_nat_small: "n < 10 \<Longrightarrow> show_nat n = [digit_char n]"
  by (subst show_nat.simps) simp

lemma drive_key_exact [simp]:
  "drive_key exact_ops (drive (numeral c) m) = \<lparr>capacityGB = numeral c, mediaType = m\<rparr>"
  by (simp add: drive_key_def exact_ops_def drive_def trunc0_def)

lemma scenario5_value:
  "NormalizeStorageSummary exact_ops scenario5_drives
     = ''2'' @ times_sign @ ''745GB SSD, 2'' @ times_sign @ ''14306GB HDD''"
  by (simp add: scenario5_drives_def NormalizeStorageSummary_def map_count_def driveKey_less_def
      drive_part_def show_int64_def show_int_def digit_char_def Let_def show_nat_small)


theorem C4_storage_summary_canonical_witness:
  "scenario5_drives \<noteq> []
   \<and> mset scenario5_drives = mset scenario5_permuted
   \<and> NormalizeStorageSummary exact_ops scenario5_drives
       = ''2'' @ times_sign @ ''745GB SSD, 2'' @ times_sign @ ''14306GB HDD''
   \<and> NormalizeStorageSummary exact_ops scenario5_permuted
       = ''2'' @ times_sign @ ''745GB SSD, 2'' @ times_sign @ ''14306GB HDD''
   \<and> (\<exists>ks. distinct ks \<and> set ks = set (map (drive_key exact_ops) scenario5_drives)
           \<and> sorted_wrt (\<lambda>a b.
                 (mediaType a = ''SSD'' \<and> mediaType b \<noteq> ''SSD'')
                 \<or> (mediaType a \<noteq> ''SSD'' \<and> mediaType b \<noteq> ''SSD'' \<and> mediaType a < mediaType b)
                 \<or> (mediaType a = mediaType b \<and> sint (capacityGB b) < sint (capacityGB a))) ks
           \<and> NormalizeStorageSummary exact_ops scenario5_drives =
               Join (map (\<lambda>k. show_nat (count (mset (map (drive_key exact_ops) scenario5_drives)) k) @ times_sign
                              @ show_int64 (capacityGB k) @ ''GB '' @ mediaType k) ks) '', '')"
proof -
  have ne: "scenario5_drives \<noteq> []" by (simp add: scenario5_drives_def)
  have perm: "mset scenario5_drives = mset scenario5_permuted"
    by (simp add: scenario5_drives_def scenario5_permuted_def)
  note t = C4_storage_summary_canonical [of exact_ops scenario5_drives scenario5_permuted]
  note eq = t [THEN conjunct2, THEN conjunct2, THEN conjunct2, THEN mp, OF perm]
  note ex = t [THEN conjunct2, THEN conjunct1, THEN mp, OF ne]
  have v: "NormalizeStorageSummary exact_ops scenario5_permuted
       = ''2'' @ times_sign @ ''745GB SSD, 2'' @ times_sign @ ''14306GB HDD''"
    using scenario5_value unfolding eq .
  from ne perm scenario5_value v ex show ?thesis by (intro conjI)
qed

section \<open>GroupByConfiguration: counters and groups\<close>




























section \<open>GroupByConfiguration: the combined key\<close>

lemma colliding_keys:
  "record_comb_key exact_ops (host_record ''h1'' ''ACME|X'' ''1'' ''Xeon'')
     = record_comb_key exact_ops (host_record ''h2'' ''ACME'' ''X|1'' ''Xeon'')"
  by (simp add: record_comb_key_def comb_key_def model_key_def host_record_def Key_def
      buildFingerprint_def fingerprint_gpus_def)

lemma colliding_models:
  "model_key (host_record ''h1'' ''ACME|X'' ''1'' ''Xeon'')
     \<noteq> model_key (host_record ''h2'' ''ACME'' ''X|1'' ''Xeon'')"
  by (simp add: model_key_def host_record_def)

text \<open>
  C2. The claim is that for every list of records \<^verbatim>\<open>GroupByConfiguration\<close> produces the
  two-level hierarchy, model groups keyed by the exact (manufacturer, model) pair and
  config subgroups keyed by the fingerprint. The code keys the index of a config subgroup
  by the text \<^verbatim>\<open>manufacturer|model\x00key\<close> alone, in one map for all model groups. The two
  records below have different (manufacturer, model) pairs and the same text: the index
  stored for the first is looked up for the second and used in the still empty group list
  of the second model, and the function panics instead of returning a hierarchy.
\<close>

theorem C2_panic_on_colliding_keys:
  "GroupByConfiguration exact_ops 0 colliding_fleet no_stats = Inl IndexOutOfRange"
proof -
  let ?s1 = "host_record ''h1'' ''ACME|X'' ''1'' ''Xeon''"
  let ?s2 = "host_record ''h2'' ''ACME'' ''X|1'' ''Xeon''"
  have e1: "si_Error ?s1 = None" and e2: "si_Error ?s2 = None"
    by (simp_all add: host_record_def)
  obtain st1 where s1: "gbc_step exact_ops (gbc_init 0 colliding_fleet no_stats) ?s1 = Inr st1"
    and m1: "st_modelMap st1 (model_key ?s2) = None"
    and c1: "st_configIdxMap st1 (record_comb_key exact_ops ?s1) = Some 0"
    using e1 colliding_models
    by (simp add: gbc_step_def gbc_init_def Let_def record_comb_key_def)
  have "gbc_step exact_ops st1 ?s2 = Inl IndexOutOfRange"
    using e2 m1 c1 unfolding colliding_keys
    by (simp add: gbc_step_def Let_def record_comb_key_def)
  with s1 show ?thesis
    by (simp add: GroupByConfiguration_def colliding_fleet_def)
qed

section \<open>The custom-field payload\<close>


































section \<open>Scanning one host: error and model\<close>

lemma collectProcessors_keeps:
  "si_Model (fst (collectProcessors b info)) = si_Model info"
  "si_Error (fst (collectProcessors b info)) = si_Error info"
  by (simp_all add: collectProcessors_def Let_def split: sum.splits prod.splits list.splits)

lemma collectMemory_keeps:
  "si_Model (fst (collectMemory ops sops b info)) = si_Model info"
  "si_Error (fst (collectMemory ops sops b info)) = si_Error info"
  by (simp_all add: collectMemory_def Let_def split: sum.splits)

lemma collectStorage_keeps:
  "si_Model (fst (collectStorage sops b info)) = si_Model info"
  "si_Error (fst (collectStorage sops b info)) = si_Error info"
  by (simp_all add: collectStorage_def Let_def split: sum.splits prod.splits)

lemma collectPowerInfo_keeps:
  "si_Model (fst (collectPowerInfo b info)) = si_Model info"
  "si_Error (fst (collectPowerInfo b info)) = si_Error info"
  by (simp_all add: collectPowerInfo_def Let_def split: sum.splits prod.splits list.splits)

lemma collectSystemInfo_ok:
  "bmc_system b = Inr system \<Longrightarrow>
   snd (collectSystemInfo b info) = None
   \<and> si_Model (fst (collectSystemInfo b info)) = sys_Model system
   \<and> si_Error (fst (collectSystemInfo b info)) = si_Error info"
  by (simp add: collectSystemInfo_def Let_def split: option.splits)

lemma collectSystemInfo_failed:
  "bmc_system b = Inl err \<Longrightarrow>
   collectSystemInfo b info = (info, Some (CollectionError (si_Host info) ''system'' err))"
  by (simp add: collectSystemInfo_def)

lemma scanServer_ok:
  assumes "bmc_system b = Inr system"
  shows "si_Error (scanServer ops sops now b server) = None"
    and "si_Model (scanServer ops sops now b server) = sys_Model system"
proof -
  let ?info = "new_ServerInfo sops now server"
  obtain info1 where c: "collectSystemInfo b ?info = (info1, None)"
    and m: "si_Model info1 = sys_Model system" and e: "si_Error info1 = None"
    using collectSystemInfo_ok [OF assms, of ?info]
    by (cases "collectSystemInfo b ?info") (simp add: new_ServerInfo_def)
  show "si_Error (scanServer ops sops now b server) = None"
    unfolding scanServer_def Let_def c
    by (simp add: collectPowerInfo_keeps collectStorage_keeps collectMemory_keeps
        collectProcessors_keeps e)
  show "si_Model (scanServer ops sops now b server) = sys_Model system"
    unfolding scanServer_def Let_def c
    by (simp add: collectPowerInfo_keeps collectStorage_keeps collectMemory_keeps
        collectProcessors_keeps m)
qed

lemma scanServer_failed:
  assumes "bmc_system b = Inl err"
  shows "si_Error (scanServer ops sops now b server)
           = Some (CollectionError (sc_Host server) ''system'' err)"
    and "si_Model (scanServer ops sops now b server) = []"
  unfolding scanServer_def Let_def collectSystemInfo_failed [OF assms]
  by (simp_all add: new_ServerInfo_def)

text \<open>
  C8 (as stated, refuted). A BMC whose system resource has no \<^verbatim>\<open>Model\<close> (the JSON object
  decodes with the field at its zero value) yields a record with \<^verbatim>\<open>Error == nil\<close> and an
  empty model.
\<close>

theorem C8_empty_model_counterexample:
  "si_Error (scanServer exact_ops exact_scan_ops 0 silent_bmc server_120) = None
   \<and> si_Model (scanServer exact_ops exact_scan_ops 0 silent_bmc server_120) = []"
proof -
  have s: "bmc_system silent_bmc = Inr empty_system" by (simp add: silent_bmc_def)
  show ?thesis
    unfolding scanServer_ok [OF s] by (simp add: empty_system_def)
qed

text \<open>
  C8 (amended). The record of a host scan has \<^verbatim>\<open>Error == nil\<close> exactly when the fetch of the
  system resource succeeded, and its model is then the \<^verbatim>\<open>Model\<close> string of that resource,
  whatever it is, the empty string included. When the fetch fails, the error is the
  collection error of the system step and the model is empty.
\<close>

theorem C8_error_nil_iff_system_fetched:
  "(si_Error (scanServer ops sops now b server) = None) = (\<exists>system. bmc_system b = Inr system)
   \<and> (\<forall>system. bmc_system b = Inr system \<longrightarrow>
         si_Model (scanServer ops sops now b server) = sys_Model system)
   \<and> (\<forall>err. bmc_system b = Inl err \<longrightarrow>
         si_Error (scanServer ops sops now b server)
           = Some (CollectionError (sc_Host server) ''system'' err)
         \<and> si_Model (scanServer ops sops now b server) = [])"
proof (cases "bmc_system b")
  case (Inl err)
  with scanServer_failed [OF Inl] show ?thesis by simp
next
  case (Inr system)
  with scanServer_ok [OF Inr] show ?thesis by simp
qed

theorem C8_error_nil_iff_system_fetched_witness:
  "bmc_system r750_bmc = Inr (empty_system\<lparr>sys_Model := ''PowerEdge R750''\<rparr>)
   \<and> si_Error (scanServer exact_ops exact_scan_ops 0 r750_bmc server_120) = None
   \<and> si_Model (scanServer exact_ops exact_scan_ops 0 r750_bmc server_120) = ''PowerEdge R750''
   \<and> bmc_system dead_bmc = Inl ErrAuthenticationFailed
   \<and> si_Error (scanServer exact_ops exact_scan_ops 0 dead_bmc server_120)
        = Some (CollectionError ''10.0.0.1'' ''system'' ErrAuthenticationFailed)
   \<and> si_Model (scanServer exact_ops exact_scan_ops 0 dead_bmc server_120) = []"
proof -
  have r: "bmc_system r750_bmc = Inr (empty_system\<lparr>sys_Model := ''PowerEdge R750''\<rparr>)"
    by (simp add: r750_bmc_def silent_bmc_def)
  have d: "bmc_system dead_bmc = Inl ErrAuthenticationFailed"
    by (simp add: dead_bmc_def silent_bmc_def)
  note t1 = C8_error_nil_iff_system_fetched [of exact_ops exact_scan_ops 0 r750_bmc server_120]
  note t2 = C8_error_nil_iff_system_fetched [of exact_ops exact_scan_ops 0 dead_bmc server_120]
  have 1: "si_Error (scanServer exact_ops exact_scan_ops 0 r750_bmc server_120) = None"
    unfolding t1 [THEN conjunct1] using r by (rule exI)
  have 2: "si_Model (scanServer exact_ops exact_scan_ops 0 r750_bmc server_120) = ''PowerEdge R750''"
    using t1 [THEN conjunct2, THEN conjunct1, THEN spec, THEN mp, OF r] by simp
  note f = t2 [THEN conjunct2, THEN conjunct2, THEN spec, THEN mp, OF d]
  have 3: "si_Error (scanServer exact_ops exact_scan_ops 0 dead_bmc server_120)
        = Some (CollectionError ''10.0.0.1'' ''system'' ErrAuthenticationFailed)"
    using f [THEN conjunct1] by (simp add: server_120_def)
  have 4: "si_Model (scanServer exact_ops exact_scan_ops 0 dead_bmc server_120) = []"
    by (rule f [THEN conjunct2])
  from r 1 2 d 3 4 show ?thesis by (intro conjI)
qed

section \<open>IP-range expansion at the top of the address space\<close>

lemma compare_at_top:
  assumes "\<forall>i \<in> set idxs. b ! i = (255 :: byte)"
  shows "compare_at idxs a b \<le> 0"
  using assms
proof (induction idxs)
  case Nil
  show ?case by simp
next
  case (Cons i idxs)
  have "a ! i \<le> (255 :: byte)"
    using word_le_nat_alt [of "a ! i" "255 :: byte"] unsigned_less [of "a ! i", where 'a = nat]
    by simp
  then have "\<not> a ! i > b ! i" using Cons.prems by simp
  with Cons show ?case by simp
qed

lemma compareIPs_broadcast: "compareIPs ip [255, 255, 255, 255] \<le> 0"
  unfolding compareIPs_def by (rule compare_at_top) simp

lemma range_loop_never_leaves:
  assumes "\<forall>ip. compareIPs ip end_ip \<le> 0"
  shows "range_loop rangeStr ip end_ip ips = Inl (RangeTooLarge rangeStr)"
  using assms
proof (induction rangeStr ip end_ip ips rule: range_loop.induct)
  case (1 rangeStr ip end_ip ips)
  from "1.prems" have c: "compareIPs ip end_ip \<le> 0" by blast
  show ?case
  proof (cases "length (ips @ [IP_String ip]) > 10000")
    case True
    with c show ?thesis
      by (subst range_loop.simps) (simp add: Let_def)
  next
    case False
    have "range_loop rangeStr (incrementIP ip) end_ip (ips @ [IP_String ip]) = Inl (RangeTooLarge rangeStr)"
      using c False "1.prems" by (intro "1.IH") simp_all
    with c False show ?thesis
      by (subst range_loop.simps) (simp add: Let_def)
  qed
qed

lemma parse_broadcast: "example_ParseIP ''255.255.255.255'' = Some (v4_in_v6 [255, 255, 255, 255])"
  by (simp add: example_ParseIP_def parse_octet_def digit_value_def)

lemma To4_v4_in_v6: "length bs = 4 \<Longrightarrow> To4 (v4_in_v6 bs) = Some bs"
  by (simp add: To4_def v4_in_v6_def nth_append)

lemma split_broadcast:
  "Split broadcast_range CHR ''-'' = [''255.255.255.255'', ''255.255.255.255'']"
  by (simp add: broadcast_range_def)

text \<open>
  C6. The claim is that a range \<^verbatim>\<open>start-end\<close> with start \<open>\<le>\<close> end is expanded in full exactly
  when it has at most 10 000 addresses. The range \<^verbatim>\<open>255.255.255.255-255.255.255.255\<close> has one
  address; \<^verbatim>\<open>incrementIP\<close> wraps it to \<^verbatim>\<open>0.0.0.0\<close>, which again compares not above the end, so
  the loop only stops at the safety limit and the function returns the range-too-large
  error. The same happens for every range that ends at \<^verbatim>\<open>255.255.255.255\<close>.
\<close>

theorem C6_broadcast_range_rejected:
  "ParseIPRange example_TrimSpace example_ParseIP broadcast_range
     = Inl (RangeTooLarge broadcast_range)"
proof -
  have t: "example_TrimSpace broadcast_range = broadcast_range"
    "example_TrimSpace ''255.255.255.255'' = ''255.255.255.255''"
    by (simp_all add: example_TrimSpace_def broadcast_range_def)
  have m: "CHR ''-'' \<in> set broadcast_range" by (simp add: broadcast_range_def)
  have c: "\<not> compareIPs [255, 255, 255, 255] [255, 255, 255, 255] > 0"
    using compareIPs_broadcast [of "[255, 255, 255, 255]"] by simp
  have l: "range_loop broadcast_range [255, 255, 255, 255] [255, 255, 255, 255] []
             = Inl (RangeTooLarge broadcast_range)"
    by (rule range_loop_never_leaves) (simp add: compareIPs_broadcast)
  show ?thesis
    unfolding ParseIPRange_def
    by (simp add: Let_def t m split_broadcast parse_broadcast To4_v4_in_v6 c l)
qed

end
